theory Spec2Isabelle
  imports Main
begin

section \<open>Errors and outcomes\<close>

text \<open>
  A Go \<^verbatim>\<open>error\<close> value is built by \<^verbatim>\<open>fmt.Errorf\<close>: either a plain message, or a
  message wrapping (\<^verbatim>\<open>%w\<close>) the error of a collaborator. The errors of the hosting
  platform are opaque to the program.
\<close>

datatype error =
    Transport string
  | Errorf string
  | Wrap string error

text \<open>
  A call either returns, or panics (a nil map entry is dereferenced, a pattern handed to
  \<^verbatim>\<open>regexp.MustCompile\<close> does not parse). A panic is not an error value: no
  \<^verbatim>\<open>if err != nil\<close> of a caller catches it. \<open>OutsideModel\<close> marks an input on which the
  embedding of a library routine gives no answer.
\<close>

datatype 'a outcome =
    Returned 'a
  | Panicked string
  | OutsideModel string

fun obind :: "'a outcome \<Rightarrow> ('a \<Rightarrow> 'b outcome) \<Rightarrow> 'b outcome" where
  "obind (Returned x) f = f x"
| "obind (Panicked m) f = Panicked m"
| "obind (OutsideModel m) f = OutsideModel m"

section \<open>Strings\<close>

text \<open>
  Go strings are byte sequences, and so is \<^typ>\<open>string\<close>. \<open>Split s sep\<close> is
  \<^verbatim>\<open>strings.Split\<close> with a separator of one byte: the pieces between the separators, one
  piece more than there are separators. \<open>Join\<close> is \<^verbatim>\<open>strings.Join\<close>.
\<close>

fun Split_acc :: "string \<Rightarrow> char \<Rightarrow> string \<Rightarrow> string list" where
  "Split_acc [] sep piece = [rev piece]"
| "Split_acc (c # s) sep piece =
     (if c = sep then rev piece # Split_acc s sep [] else Split_acc s sep (c # piece))"

definition Split :: "string \<Rightarrow> char \<Rightarrow> string list" where
  "Split s sep = Split_acc s sep []"

fun Join :: "string list \<Rightarrow> string \<Rightarrow> string" where
  "Join [] sep = []"
| "Join [x] sep = x"
| "Join (x # y # xs) sep = x @ sep @ Join (y # xs) sep"

text \<open>
  The verb \<^verbatim>\<open>%d\<close> of \<^verbatim>\<open>fmt.Sprintf\<close>: the decimal digits of an integer, with a minus
  sign when it is negative.
\<close>

definition digit_char :: "nat \<Rightarrow> char" where
  "digit_char d = ''0123456789'' ! (d mod 10)"

function showNat :: "nat \<Rightarrow> string" where
  "showNat n = (if n < 10 then [digit_char n] else showNat (n div 10) @ [digit_char (n mod 10)])"
  by pat_completeness auto
termination
  by (relation "measure id") auto

definition showInt :: "int \<Rightarrow> string" where
  "showInt i = (if i < 0 then CHR ''-'' # showNat (nat (- i)) else showNat (nat i))"


text \<open>
  \<^verbatim>\<open>strconv.Atoi\<close>, where \<^verbatim>\<open>int\<close> has 64 bits: an optional sign and decimal digits; a value
  that does not fit is a range error.
\<close>

definition is_digit :: "char \<Rightarrow> bool" where
  "is_digit c \<longleftrightarrow> c \<in> set ''0123456789''"

definition digit_val :: "char \<Rightarrow> nat" where
  "digit_val c = of_char c - 48"

definition decimal :: "string \<Rightarrow> nat" where
  "decimal ds = foldl (\<lambda>acc c. acc * 10 + digit_val c) 0 ds"

definition Atoi :: "string \<Rightarrow> error + int" where
  "Atoi s =
     (let (neg, ds) = (case s of
                         c # rest \<Rightarrow> if c = CHR ''+'' then (False, rest)
                                    else if c = CHR ''-'' then (True, rest)
                                    else (False, s)
                       | [] \<Rightarrow> (False, s))
      in if ds = [] \<or> \<not> list_all is_digit ds then Inl (Errorf ''strconv.Atoi: invalid syntax'')
         else if neg then
           (if decimal ds \<le> 2 ^ 63 then Inr (- int (decimal ds))
            else Inl (Errorf ''strconv.Atoi: value out of range''))
         else
           (if decimal ds < 2 ^ 63 then Inr (int (decimal ds))
            else Inl (Errorf ''strconv.Atoi: value out of range'')))"

text \<open>The sum of two \<^verbatim>\<open>int\<close>s wraps around at 64 bits.\<close>

definition wrap64 :: "int \<Rightarrow> int" where
  "wrap64 i = (i + 2 ^ 63) mod 2 ^ 64 - 2 ^ 63"

text \<open>
  \<^verbatim>\<open>fmt.Sscanf(s, "%d", &num)\<close> on a variable that holds 0, for the strings a group
  \<^verbatim>\<open>(\d+)\<close> can capture and for the empty string: the value that \<^verbatim>\<open>num\<close> holds
  afterwards. A failed scan (no input, a value out of range) leaves the 0.
\<close>

definition Sscanf_d :: "string \<Rightarrow> int outcome" where
  "Sscanf_d s =
     (if s = [] then Returned 0
      else if list_all is_digit s then
        Returned (if decimal s < 2 ^ 63 then int (decimal s) else 0)
      else OutsideModel ''Sscanf'')"

section \<open>regexp: the patterns the program compiles\<close>

text \<open>
  The program matches strings with Go's \<^verbatim>\<open>regexp\<close> package, and builds three of its
  patterns from a command-line argument. The embedding covers the part of the pattern
  syntax made of literal bytes, escaped punctuation, \<^verbatim>\<open>\d\<close>, the dot, bracket classes
  of ASCII bytes and ranges, \<^verbatim>\<open>^\<close> and \<^verbatim>\<open>$\<close>, capturing groups, alternation and the
  greedy operators \<^verbatim>\<open>*\<close>, \<^verbatim>\<open>+\<close> and \<^verbatim>\<open>?\<close>. A pattern with anything else is
  \<open>OutsideModel\<close>, and so is a pattern of more than 1000 bytes (the library bounds the
  size and nesting of what it compiles).
\<close>

datatype charset =
    Only char
  | AnyButNL
  | Ranges bool "(char \<times> char) list"

datatype regex =
    Eps
  | Atom charset
  | Bol
  | Eol
  | Cat regex regex
  | Alt regex regex
  | Star regex
  | Plus regex
  | Quest regex
  | Group nat regex

definition byte :: "char \<Rightarrow> nat" where
  "byte c = of_char c"

definition in_ranges :: "char \<Rightarrow> (char \<times> char) list \<Rightarrow> bool" where
  "in_ranges c rs = list_ex (\<lambda>(lo, hi). byte lo \<le> byte c \<and> byte c \<le> byte hi) rs"

subsection \<open>Runes\<close>

text \<open>
  The library reads its input rune by rune. A rune is one byte below \<^verbatim>\<open>0x80\<close>, or a
  well-formed UTF-8 sequence of two to four bytes; any other byte is read alone, as the
  replacement rune. \<open>runeTail b0 s\<close> is the number of bytes after \<open>b0\<close> that belong to
  the rune starting with \<open>b0\<close>, when \<open>s\<close> follows it.
\<close>

definition cont :: "char \<Rightarrow> bool" where
  "cont b \<longleftrightarrow> 0x80 \<le> byte b \<and> byte b \<le> 0xBF"

definition second3 :: "nat \<Rightarrow> char \<Rightarrow> bool" where
  "second3 x b1 \<longleftrightarrow>
     (if x = 0xE0 then 0xA0 \<le> byte b1 \<and> byte b1 \<le> 0xBF
      else if x = 0xED then 0x80 \<le> byte b1 \<and> byte b1 \<le> 0x9F
      else cont b1)"

definition second4 :: "nat \<Rightarrow> char \<Rightarrow> bool" where
  "second4 x b1 \<longleftrightarrow>
     (if x = 0xF0 then 0x90 \<le> byte b1 \<and> byte b1 \<le> 0xBF
      else if x = 0xF4 then 0x80 \<le> byte b1 \<and> byte b1 \<le> 0x8F
      else cont b1)"

definition runeTail :: "char \<Rightarrow> string \<Rightarrow> nat" where
  "runeTail b0 s =
     (let x = byte b0 in
      if x < 0xC2 then 0
      else if x < 0xE0 then
        (case s of b1 # _ \<Rightarrow> if cont b1 then 1 else 0 | _ \<Rightarrow> 0)
      else if x < 0xF0 then
        (case s of b1 # b2 # _ \<Rightarrow> if second3 x b1 \<and> cont b2 then 2 else 0 | _ \<Rightarrow> 0)
      else if x < 0xF5 then
        (case s of b1 # b2 # b3 # _ \<Rightarrow>
           if second4 x b1 \<and> cont b2 \<and> cont b3 then 3 else 0 | _ \<Rightarrow> 0)
      else 0)"

subsection \<open>Matching\<close>

text \<open>
  A matching state is the position in the text, the text from there on, and the groups
  captured so far (the latest capture of a group first). \<open>ms r st\<close> lists the states in
  which a match of \<open>r\<close> that starts in \<open>st\<close> can end, in the order of preference of the
  library: the left alternative before the right one, one more round of a repetition
  before none. The classes and literals of a pattern are ASCII, so a rune of several
  bytes, or a byte that is no rune, is matched by the dot and by a negated class only.
\<close>

type_synonym mstate = "nat \<times> string \<times> (nat \<times> string) list"

fun atom_step :: "charset \<Rightarrow> mstate \<Rightarrow> mstate list" where
  "atom_step cs (pos, [], caps) = []"
| "atom_step (Only c) (pos, x # xs, caps) =
     (if x = c then [(pos + 1, xs, caps)] else [])"
| "atom_step AnyButNL (pos, x # xs, caps) =
     (if x = CHR 0x0A then []
      else [(pos + 1 + runeTail x xs, drop (runeTail x xs) xs, caps)])"
| "atom_step (Ranges neg rs) (pos, x # xs, caps) =
     (if byte x < 0x80 then
        (if in_ranges x rs \<noteq> neg then [(pos + 1, xs, caps)] else [])
      else if neg then [(pos + 1 + runeTail x xs, drop (runeTail x xs) xs, caps)]
      else [])"

text \<open>
  The rounds of a repetition: every round consumes input, so the length of the text
  left bounds their number.
\<close>

fun star_loop :: "(mstate \<Rightarrow> mstate list) \<Rightarrow> nat \<Rightarrow> mstate \<Rightarrow> mstate list" where
  "star_loop m 0 st = [st]"
| "star_loop m (Suc k) st =
     concat (map (\<lambda>st'. if length (fst (snd st')) < length (fst (snd st))
                          then star_loop m k st' else []) (m st)) @ [st]"

definition capture :: "nat \<Rightarrow> mstate \<Rightarrow> mstate \<Rightarrow> mstate" where
  "capture n st st' =
     (fst st', fst (snd st'), (n, take (fst st' - fst st) (fst (snd st))) # snd (snd st'))"

primrec ms :: "regex \<Rightarrow> mstate \<Rightarrow> mstate list" where
  "ms Eps st = [st]"
| "ms (Atom cs) st = atom_step cs st"
| "ms Bol st = (if fst st = 0 then [st] else [])"
| "ms Eol st = (if fst (snd st) = [] then [st] else [])"
| "ms (Cat r1 r2) st = concat (map (ms r2) (ms r1 st))"
| "ms (Alt r1 r2) st = ms r1 st @ ms r2 st"
| "ms (Star r) st = star_loop (ms r) (length (fst (snd st))) st"
| "ms (Plus r) st =
     concat (map (\<lambda>st'. star_loop (ms r) (length (fst (snd st'))) st') (ms r st))"
| "ms (Quest r) st = ms r st @ [st]"
| "ms (Group n r) st = map (capture n st) (ms r st)"

primrec ngroups :: "regex \<Rightarrow> nat" where
  "ngroups Eps = 0"
| "ngroups (Atom cs) = 0"
| "ngroups Bol = 0"
| "ngroups Eol = 0"
| "ngroups (Cat r1 r2) = ngroups r1 + ngroups r2"
| "ngroups (Alt r1 r2) = ngroups r1 + ngroups r2"
| "ngroups (Star r) = ngroups r"
| "ngroups (Plus r) = ngroups r"
| "ngroups (Quest r) = ngroups r"
| "ngroups (Group n r) = 1 + ngroups r"

text \<open>
  The leftmost match: the first start, going through the text rune by rune, at which
  the pattern matches, with the preferred match from there. The result is the start and
  the state at the end of the match.
\<close>

fun find_from :: "regex \<Rightarrow> nat \<Rightarrow> string \<Rightarrow> (nat \<times> mstate) option" where
  "find_from r pos [] =
     (case ms r (pos, [], []) of st # _ \<Rightarrow> Some (pos, st) | [] \<Rightarrow> None)"
| "find_from r pos (x # xs) =
     (case ms r (pos, x # xs, []) of
        st # _ \<Rightarrow> Some (pos, st)
      | [] \<Rightarrow> find_from r (pos + 1 + runeTail x xs) (drop (runeTail x xs) xs))"

text \<open>
  The strings of a match: the text matched, then the text of each group, empty for a
  group that took no part.
\<close>

definition submatches :: "regex \<Rightarrow> string \<Rightarrow> nat \<Rightarrow> nat \<times> mstate \<Rightarrow> string list" where
  "submatches r text pos m =
     take (fst (snd m) - fst m) (drop (fst m - pos) text) #
     map (\<lambda>i. case map_of (snd (snd (snd m))) i of Some s \<Rightarrow> s | None \<Rightarrow> [])
       [1 ..< Suc (ngroups r)]"

text \<open>\<^verbatim>\<open>MatchString\<close> and \<^verbatim>\<open>FindStringSubmatch\<close> (\<open>None\<close> is the nil slice).\<close>

definition MatchString :: "regex \<Rightarrow> string \<Rightarrow> bool" where
  "MatchString r s \<longleftrightarrow> find_from r 0 s \<noteq> None"

definition FindStringSubmatch :: "regex \<Rightarrow> string \<Rightarrow> string list option" where
  "FindStringSubmatch r s = map_option (submatches r s 0) (find_from r 0 s)"

text \<open>
  \<^verbatim>\<open>FindAllStringSubmatch(s, -1)\<close>: the successive leftmost matches, each search starting
  where the match before ended. After an empty match the search moves on by one rune,
  and an empty match right at the end of the match before is dropped. \<open>prev\<close> is the end
  of the match before.
\<close>

function all_from :: "regex \<Rightarrow> nat \<Rightarrow> string \<Rightarrow> nat option \<Rightarrow> string list list" where
  "all_from r pos [] prev =
     (case find_from r pos [] of
        None \<Rightarrow> []
      | Some m \<Rightarrow> if Some (fst m) = prev then [] else [submatches r [] pos m])"
| "all_from r pos (x # xs) prev =
     (case find_from r pos (x # xs) of
        None \<Rightarrow> []
      | Some m \<Rightarrow>
          if fst (snd m) \<le> pos then
            (if Some (fst m) = prev then [] else [submatches r (x # xs) pos m]) @
            all_from r (pos + 1 + runeTail x xs) (drop (runeTail x xs) xs) (Some (fst (snd m)))
          else
            submatches r (x # xs) pos m #
            all_from r (fst (snd m)) (drop (fst (snd m) - pos) (x # xs)) (Some (fst (snd m))))"
  by pat_completeness auto
termination
  by (relation "measure (\<lambda>(r, pos, s, prev). length s)") auto

definition FindAllStringSubmatch :: "regex \<Rightarrow> string \<Rightarrow> string list list" where
  "FindAllStringSubmatch r s = all_from r 0 s None"

subsection \<open>Compiling a pattern\<close>

fun cat_list :: "regex list \<Rightarrow> regex" where
  "cat_list [] = Eps"
| "cat_list [r] = r"
| "cat_list (r # rs) = Cat r (cat_list rs)"

fun alt_list :: "regex list \<Rightarrow> regex" where
  "alt_list [] = Eps"
| "alt_list [r] = r"
| "alt_list (r # rs) = Alt r (alt_list rs)"

primrec nullable :: "regex \<Rightarrow> bool" where
  "nullable Eps = True"
| "nullable (Atom cs) = False"
| "nullable Bol = True"
| "nullable Eol = True"
| "nullable (Cat r1 r2) = (nullable r1 \<and> nullable r2)"
| "nullable (Alt r1 r2) = (nullable r1 \<or> nullable r2)"
| "nullable (Star r) = True"
| "nullable (Plus r) = nullable r"
| "nullable (Quest r) = True"
| "nullable (Group n r) = nullable r"

fun is_rep :: "regex \<Rightarrow> bool" where
  "is_rep (Star r) = True"
| "is_rep (Plus r) = True"
| "is_rep (Quest r) = True"
| "is_rep r = False"

definition alnum :: "char \<Rightarrow> bool" where
  "alnum c \<longleftrightarrow>
     (byte CHR ''0'' \<le> byte c \<and> byte c \<le> byte CHR ''9'') \<or>
     (byte CHR ''A'' \<le> byte c \<and> byte c \<le> byte CHR ''Z'') \<or>
     (byte CHR ''a'' \<le> byte c \<and> byte c \<le> byte CHR ''z'')"

text \<open>
  The parser reads the pattern byte by byte. It keeps one frame for every group that is
  open, the innermost first, and one for the whole pattern at the bottom: the number of
  the group, the alternatives that are complete, and the pieces of the alternative that
  is being read. Groups are numbered by their opening parenthesis.
\<close>

type_synonym frame = "nat \<times> regex list \<times> regex list"

datatype cstate = Fresh | Have char | Dash char | LastDash

datatype pmode = Normal | Escaped | ClassBegin | ClassBody bool "(char \<times> char) list" cstate

datatype pstate =
    PS "frame list" nat pmode
  | PFail string
  | PUnsupp string

definition push_item :: "frame list \<Rightarrow> nat \<Rightarrow> regex \<Rightarrow> pstate" where
  "push_item stack n item =
     (case stack of
        (g, alts, seq) # fs \<Rightarrow> PS ((g, alts, seq @ [item]) # fs) n Normal
      | [] \<Rightarrow> PUnsupp ''no frame'')"

definition class_plain :: "char \<Rightarrow> bool" where
  "class_plain c \<longleftrightarrow> byte c < 0x80 \<and> c \<notin> set ''[]^-'' \<and> c \<noteq> CHR 0x5C"

definition class_step ::
  "frame list \<Rightarrow> nat \<Rightarrow> bool \<Rightarrow> (char \<times> char) list \<Rightarrow> cstate \<Rightarrow> char \<Rightarrow> pstate" where
  "class_step stack n neg rs cst c =
     (case cst of
        Fresh \<Rightarrow>
          if c = CHR '']'' then
            (if rs = [] then PUnsupp ''bracket first in class''
             else push_item stack n (Atom (Ranges neg rs)))
          else if c = CHR ''-'' then PS stack n (ClassBody neg rs LastDash)
          else if class_plain c then PS stack n (ClassBody neg rs (Have c))
          else PUnsupp ''class item''
      | Have a \<Rightarrow>
          if c = CHR '']'' then push_item stack n (Atom (Ranges neg (rs @ [(a, a)])))
          else if c = CHR ''-'' then PS stack n (ClassBody neg rs (Dash a))
          else if class_plain c then PS stack n (ClassBody neg (rs @ [(a, a)]) (Have c))
          else PUnsupp ''class item''
      | Dash a \<Rightarrow>
          if c = CHR '']'' then
            push_item stack n (Atom (Ranges neg (rs @ [(a, a), (CHR ''-'', CHR ''-'')])))
          else if class_plain c then
            (if byte a \<le> byte c then PS stack n (ClassBody neg (rs @ [(a, c)]) Fresh)
             else PFail ''invalid character class range'')
          else PUnsupp ''class item''
      | LastDash \<Rightarrow>
          if c = CHR '']'' then
            push_item stack n (Atom (Ranges neg (rs @ [(CHR ''-'', CHR ''-'')])))
          else PUnsupp ''dash in class'')"

definition rep_of :: "char \<Rightarrow> regex \<Rightarrow> regex" where
  "rep_of c x = (if c = CHR ''*'' then Star x else if c = CHR ''+'' then Plus x else Quest x)"

definition normal_step :: "frame list \<Rightarrow> nat \<Rightarrow> char \<Rightarrow> pstate" where
  "normal_step stack n c =
     (if c = CHR 0x5C then PS stack n Escaped
      else if c = CHR ''('' then PS ((n + 1, [], []) # stack) (n + 1) Normal
      else if c = CHR '')'' then
        (case stack of
           (g, alts, seq) # (g', alts', seq') # fs \<Rightarrow>
             PS ((g', alts', seq' @ [Group g (alt_list (alts @ [cat_list seq]))]) # fs) n Normal
         | _ \<Rightarrow> PFail ''unexpected )'')
      else if c = CHR ''|'' then
        (case stack of
           (g, alts, seq) # fs \<Rightarrow> PS ((g, alts @ [cat_list seq], []) # fs) n Normal
         | [] \<Rightarrow> PUnsupp ''no frame'')
      else if c = CHR ''*'' \<or> c = CHR ''+'' \<or> c = CHR ''?'' then
        (case stack of
           (g, alts, seq) # fs \<Rightarrow>
             if seq = [] then
               (if c = CHR ''?'' \<and> alts = [] \<and> g > 0 then PUnsupp ''group flags''
                else PFail ''missing argument to repetition operator'')
             else if is_rep (last seq) then PUnsupp ''repetition of a repetition''
             else if c \<noteq> CHR ''?'' \<and> nullable (last seq) then PUnsupp ''repetition of an empty match''
             else PS ((g, alts, butlast seq @ [rep_of c (last seq)]) # fs) n Normal
         | [] \<Rightarrow> PUnsupp ''no frame'')
      else if c = CHR ''.'' then push_item stack n (Atom AnyButNL)
      else if c = CHR ''^'' then push_item stack n Bol
      else if c = CHR ''$'' then push_item stack n Eol
      else if c = CHR ''['' then PS stack n ClassBegin
      else if c = CHR ''{'' \<or> c = CHR ''}'' \<or> c = CHR '']'' then PUnsupp ''brace or bracket''
      else if byte c \<ge> 0x80 then PUnsupp ''byte outside ASCII''
      else push_item stack n (Atom (Only c)))"

fun pstep :: "pstate \<Rightarrow> char \<Rightarrow> pstate" where
  "pstep (PFail m) c = PFail m"
| "pstep (PUnsupp m) c = PUnsupp m"
| "pstep (PS stack n Normal) c = normal_step stack n c"
| "pstep (PS stack n Escaped) c =
     (if c = CHR ''d'' then push_item stack n (Atom (Ranges False [(CHR ''0'', CHR ''9'')]))
      else if byte c < 0x80 \<and> \<not> alnum c then push_item stack n (Atom (Only c))
      else PUnsupp ''escape'')"
| "pstep (PS stack n ClassBegin) c =
     (if c = CHR ''^'' then PS stack n (ClassBody True [] Fresh)
      else class_step stack n False [] Fresh c)"
| "pstep (PS stack n (ClassBody neg rs cst)) c = class_step stack n neg rs cst c"

definition pfinish :: "pstate \<Rightarrow> regex outcome" where
  "pfinish st =
     (case st of
        PFail m \<Rightarrow> Panicked (''regexp: '' @ m)
      | PUnsupp m \<Rightarrow> OutsideModel m
      | PS stack n mode \<Rightarrow>
          (case mode of
             Escaped \<Rightarrow> Panicked ''regexp: trailing backslash at end of expression''
           | ClassBegin \<Rightarrow> Panicked ''regexp: missing closing ]''
           | ClassBody neg rs cst \<Rightarrow> Panicked ''regexp: missing closing ]''
           | Normal \<Rightarrow>
               (case stack of
                  [(g, alts, seq)] \<Rightarrow> Returned (alt_list (alts @ [cat_list seq]))
                | _ \<Rightarrow> Panicked ''regexp: missing closing )'')))"

text \<open>\<^verbatim>\<open>regexp.MustCompile\<close>: it panics where \<^verbatim>\<open>regexp.Compile\<close> returns an error.\<close>

definition MustCompile :: "string \<Rightarrow> regex outcome" where
  "MustCompile pattern =
     (if length pattern > 1000 then OutsideModel ''long pattern''
      else pfinish (foldl pstep (PS [(0, [], [])] 0 Normal) pattern))"

section \<open>client.go: the hosting platform\<close>

record Repository =
  Owner :: string
  Name :: string
  DefaultBranchRef :: string

record Release =
  TagName :: string
  ReleaseName :: string
  IsPrerelease :: bool
  CreatedAt :: string

record PullRequest =
  PRNumber :: int
  Body :: string
  PRLabels :: "string list"

record Issue =
  IssueNumber :: int
  Title :: string
  State :: string
  IssueLabels :: "string list"

text \<open>
  The transport under the \<^verbatim>\<open>Client\<close> struct (the REST and GraphQL clients and the
  \<^verbatim>\<open>gh\<close> executable) is outside the program. A client is the record of the answers
  the platform gives:
  one synchronous, stateless read per request, each of which may fail with an opaque
  error. \<open>graphql_parent\<close> answers the sub-issues query: \<open>None\<close> is a null parent.
  \<open>gh_exec\<close> is \<^verbatim>\<open>gh.Exec\<close> where the program writes with it: it runs the
  \<^verbatim>\<open>gh\<close> executable on a list of arguments, and answers with an error or with none.
\<close>

record Client =
  rest_repo :: "string \<Rightarrow> error + Repository"
  rest_commits :: "string \<Rightarrow> error + string list"
  rest_ref :: "string \<Rightarrow> string \<Rightarrow> error + string"
  rest_compare :: "string \<Rightarrow> string \<Rightarrow> string \<Rightarrow> error + string list"
  rest_merge_base :: "string \<Rightarrow> string \<Rightarrow> string \<Rightarrow> error + string"
  gh_release_list :: "string \<Rightarrow> int \<Rightarrow> bool \<Rightarrow> error + Release list"
  gh_release_view :: "string \<Rightarrow> string \<Rightarrow> error + Release"
  gh_exec :: "string list \<Rightarrow> error option"
  rest_commit_pulls :: "string \<Rightarrow> string \<Rightarrow> error + int list"
  rest_pull :: "string \<Rightarrow> int \<Rightarrow> error + PullRequest"
  rest_issue :: "string \<Rightarrow> int \<Rightarrow> error + Issue"
  graphql_parent :: "string \<Rightarrow> string \<Rightarrow> int \<Rightarrow> error + int option"
  gh_repo_view :: "error + string"

definition wrap :: "string \<Rightarrow> error + 'a \<Rightarrow> error + 'a" where
  "wrap msg r = (case r of Inl e \<Rightarrow> Inl (Wrap msg e) | Inr x \<Rightarrow> Inr x)"

definition GetRepository :: "Client \<Rightarrow> string \<Rightarrow> error + Repository" where
  "GetRepository client repo = wrap ''failed to get repository'' (rest_repo client repo)"


definition GetCommitSHA :: "Client \<Rightarrow> string \<Rightarrow> string \<Rightarrow> error + string" where
  "GetCommitSHA client repo ref = wrap ''failed to get ref'' (rest_ref client repo ref)"

definition CompareCommits :: "Client \<Rightarrow> string \<Rightarrow> string \<Rightarrow> string \<Rightarrow> error + string list" where
  "CompareCommits client repo base head =
     wrap ''failed to compare commits'' (rest_compare client repo base head)"


definition ListReleases :: "Client \<Rightarrow> string \<Rightarrow> int \<Rightarrow> bool \<Rightarrow> error + Release list" where
  "ListReleases client repo limit excludePreReleases =
     wrap ''failed to list releases'' (gh_release_list client repo limit excludePreReleases)"

definition ViewRelease :: "Client \<Rightarrow> string \<Rightarrow> string \<Rightarrow> error + Release" where
  "ViewRelease client repo tag = wrap ''failed to view release'' (gh_release_view client repo tag)"

text \<open>
  The values of the interface \<^verbatim>\<open>io.Reader\<close> that \<^verbatim>\<open>CreateRelease\<close> can be given: the
  nil interface, a nil \<^verbatim>\<open>*bytes.Buffer\<close> held by the interface (which is not the nil
  interface), and a buffer with its text.
\<close>

datatype reader = NilReader | NilBuffer | Buffer string

text \<open>
  The verb \<^verbatim>\<open>%q\<close> of \<^verbatim>\<open>fmt.Sprintf\<close>, which is \<^verbatim>\<open>strconv.Quote\<close>, for a string of
  ASCII bytes: the string between double quotes, with the double quote and the
  backslash escaped, the control bytes written as \<^verbatim>\<open>\a \b \f \n \r \t \v\<close> or in
  hexadecimal, and every other byte as it is. What is printable outside ASCII is
  \<open>OutsideModel\<close>.
\<close>

definition hex_char :: "nat \<Rightarrow> char" where
  "hex_char d = ''0123456789abcdef'' ! (d mod 16)"

definition quote_byte :: "char \<Rightarrow> string" where
  "quote_byte c =
     (if c = CHR 0x22 then [CHR 0x5C, CHR 0x22]
      else if c = CHR 0x5C then [CHR 0x5C, CHR 0x5C]
      else if c = CHR 0x07 then [CHR 0x5C, CHR ''a'']
      else if c = CHR 0x08 then [CHR 0x5C, CHR ''b'']
      else if c = CHR 0x0C then [CHR 0x5C, CHR ''f'']
      else if c = CHR 0x0A then [CHR 0x5C, CHR ''n'']
      else if c = CHR 0x0D then [CHR 0x5C, CHR ''r'']
      else if c = CHR 0x09 then [CHR 0x5C, CHR ''t'']
      else if c = CHR 0x0B then [CHR 0x5C, CHR ''v'']
      else if (of_char c :: nat) < 0x20 \<or> (of_char c :: nat) = 0x7F then
        [CHR 0x5C, CHR ''x'', hex_char (of_char c div 16), hex_char (of_char c mod 16)]
      else [c])"

definition Quote :: "string \<Rightarrow> string outcome" where
  "Quote s =
     (if list_all (\<lambda>c. (of_char c :: nat) < 0x80) s
      then Returned ([CHR 0x22] @ concat (map quote_byte s) @ [CHR 0x22])
      else OutsideModel ''Quote'')"

text \<open>The arguments that \<^verbatim>\<open>CreateRelease\<close> builds for \<^verbatim>\<open>gh\<close> (lines 165 to 179).\<close>

definition releaseArgs ::
  "string \<Rightarrow> string \<Rightarrow> string \<Rightarrow> bool \<Rightarrow> bool \<Rightarrow> string \<Rightarrow> reader \<Rightarrow> string list" where
  "releaseArgs repo tag title draft prerelease target notesReader =
     [''release'', ''create'', tag, ''--repo'', repo, ''--title'', title, ''--generate-notes''] @
     (if draft then [''--draft''] else []) @
     (if prerelease then [''--prerelease''] else []) @
     (if target \<noteq> [] then [''--target'', target] else []) @
     (if notesReader \<noteq> NilReader then [''--notes-file'', ''-''] else [])"

text \<open>
  The shell command that pipes the quoted notes to \<^verbatim>\<open>gh\<close>, as the arguments of
  \<^verbatim>\<open>gh.Exec("sh", "-c", cmd)\<close>.
\<close>

definition pipedCommand :: "string \<Rightarrow> string list \<Rightarrow> string list" where
  "pipedCommand quoted args = [''sh'', ''-c'', ''echo '' @ quoted @ '' | gh '' @ Join args '' '']"

text \<open>
  \<^verbatim>\<open>CreateRelease\<close>. With a reader that is not the nil interface it reads the notes with
  \<^verbatim>\<open>io.ReadAll\<close>, which calls \<^verbatim>\<open>Read\<close> on the reader: on a nil \<^verbatim>\<open>*bytes.Buffer\<close>
  that is a nil pointer dereference, and a buffer gives its text without error. The
  notes are then piped to \<^verbatim>\<open>gh\<close> by a shell command, itself handed to
  \<^verbatim>\<open>gh.Exec\<close>. The result is the list of arguments handed to \<^verbatim>\<open>gh.Exec\<close> and the
  error returned.
\<close>

definition CreateRelease ::
  "Client \<Rightarrow> string \<Rightarrow> string \<Rightarrow> string \<Rightarrow> bool \<Rightarrow> bool \<Rightarrow> string \<Rightarrow> reader \<Rightarrow>
     (string list \<times> error option) outcome" where
  "CreateRelease client repo tag title draft prerelease target notesReader =
     (let args = releaseArgs repo tag title draft prerelease target notesReader in
      case notesReader of
        NilReader \<Rightarrow>
          Returned (args, map_option (Wrap ''failed to create release'') (gh_exec client args))
      | NilBuffer \<Rightarrow> Panicked ''nil pointer dereference''
      | Buffer notes \<Rightarrow>
          obind (Quote notes) (\<lambda>quoted.
            Returned (pipedCommand quoted args,
                      map_option (Wrap ''failed to create release'')
                        (gh_exec client (pipedCommand quoted args)))))"

definition GetPullRequestsForCommit :: "Client \<Rightarrow> string \<Rightarrow> string \<Rightarrow> error + int list" where
  "GetPullRequestsForCommit client repo sha =
     wrap ''failed to get PRs for commit'' (rest_commit_pulls client repo sha)"

definition GetPullRequest :: "Client \<Rightarrow> string \<Rightarrow> int \<Rightarrow> error + PullRequest" where
  "GetPullRequest client repo number = wrap ''failed to get PR'' (rest_pull client repo number)"

definition GetIssue :: "Client \<Rightarrow> string \<Rightarrow> int \<Rightarrow> error + Issue" where
  "GetIssue client repo number = wrap ''failed to get issue'' (rest_issue client repo number)"

text \<open>
  \<^verbatim>\<open>GetParentIssueNumber\<close> splits the repository at the slashes before it asks, and
  answers 0 for an issue without parent.
\<close>

definition GetParentIssueNumber :: "Client \<Rightarrow> string \<Rightarrow> int \<Rightarrow> error + int" where
  "GetParentIssueNumber client repo issueNumber =
     (case Split repo CHR ''/'' of
        [owner, repoName] \<Rightarrow>
          (case graphql_parent client owner repoName issueNumber of
             Inl e \<Rightarrow> Inl (Wrap ''failed to query parent issue'' e)
           | Inr (Some number) \<Rightarrow> Inr number
           | Inr None \<Rightarrow> Inr 0)
      | _ \<Rightarrow> Inl (Errorf (''invalid repo format: '' @ repo)))"

definition GetCurrentRepository :: "Client \<Rightarrow> error + string" where
  "GetCurrentRepository client = wrap ''failed to get current repository'' (gh_repo_view client)"

section \<open>display.go: the check summary\<close>

text \<open>The status and progress markers are the UTF-8 bytes of the emojis of the source.\<close>

definition EmojiOpenIssue :: string where
  "EmojiOpenIssue = [CHR 0xF0, CHR 0x9F, CHR 0x9F, CHR 0xA2]"

definition EmojiClosedIssue :: string where
  "EmojiClosedIssue = [CHR 0xF0, CHR 0x9F, CHR 0x9F, CHR 0xA3]"

definition EmojiInProgress :: string where
  "EmojiInProgress = [CHR 0xF0, CHR 0x9F, CHR 0x9A, CHR 0xA7]"

definition EmojiTesting :: string where
  "EmojiTesting = [CHR 0xF0, CHR 0x9F, CHR 0x94, CHR 0xA8]"

definition EmojiVerified :: string where
  "EmojiVerified = [CHR 0xE2, CHR 0x9C, CHR 0x85]"

record IssueInfo =
  Number :: int
  Status :: string
  Progress :: string
  Labels :: string
  RefCount :: int
  ParentNumber :: int
  Children :: "int list"

record CheckSummary =
  UnlinkedPRs :: "string list"
  TranslationPRs :: "string list"
  OrphanCommits :: "string list"
  Issues :: "int \<rightharpoonup> IssueInfo"
  IssuesRepo :: string

definition NewCheckSummary :: "string \<Rightarrow> CheckSummary" where
  "NewCheckSummary issuesRepo =
     \<lparr>UnlinkedPRs = [], TranslationPRs = [], OrphanCommits = [],
      Issues = Map.empty, IssuesRepo = issuesRepo\<rparr>"

subsection \<open>ProcessIssue\<close>

text \<open>The loop over the labels of the fetched issue.\<close>

fun scanLabels :: "string list \<Rightarrow> string list \<times> bool \<times> bool \<Rightarrow> string list \<times> bool \<times> bool" where
  "scanLabels [] acc = acc"
| "scanLabels (name # labels) (labelNames, hasVerified, hasTesting) =
     (if name = ''verified'' then scanLabels labels (labelNames, True, hasTesting)
      else if name = ''testing'' then scanLabels labels (labelNames, hasVerified, True)
      else scanLabels labels (labelNames @ [name], hasVerified, hasTesting))"

text \<open>
  The entry \<^verbatim>\<open>ProcessIssue\<close> builds from a fetched issue, before it looks for the parent
  (lines 71 to 108): the status from the state string, the progress from the labels.
\<close>

definition newIssueInfo :: "int \<Rightarrow> Issue \<Rightarrow> IssueInfo" where
  "newIssueInfo issueNumber issue =
     (let status = (if State issue = ''CLOSED'' \<or> State issue = ''closed''
                    then EmojiClosedIssue else EmojiOpenIssue);
          (labelNames, hasVerified, hasTesting) = scanLabels (IssueLabels issue) ([], False, False);
          progress = (if hasVerified then EmojiVerified
                      else if hasTesting then EmojiTesting
                      else EmojiInProgress)
      in \<lparr>Number = issueNumber, Status = status, Progress = progress,
          Labels = Join labelNames '' '', RefCount = 1, ParentNumber = 0, Children = []\<rparr>)"

text \<open>
  \<^verbatim>\<open>cs.Issues[parentNum].Children = append(cs.Issues[parentNum].Children, issueNumber)\<close>:
  the entry of the parent is reached through the map, and a missing entry is a nil pointer.
\<close>

definition appendChild :: "CheckSummary \<Rightarrow> int \<Rightarrow> int \<Rightarrow> CheckSummary outcome" where
  "appendChild cs parentNum issueNumber =
     (case Issues cs parentNum of
        None \<Rightarrow> Panicked ''nil pointer dereference''
      | Some parent \<Rightarrow>
          Returned (cs\<lparr>Issues := (Issues cs)(parentNum \<mapsto>
                      parent\<lparr>Children := Children parent @ [issueNumber]\<rparr>)\<rparr>))"

definition storeIssue :: "CheckSummary \<Rightarrow> int \<Rightarrow> IssueInfo \<Rightarrow> CheckSummary" where
  "storeIssue cs issueNumber info = cs\<lparr>Issues := (Issues cs)(issueNumber \<mapsto> info)\<rparr>"

text \<open>
  \<^verbatim>\<open>ProcessIssue\<close> calls itself on the parent, with no bound on the depth, so it is a
  partial function: \<open>None\<close> is a call that never returns. A call that returns gives
  the error and the summary after it. The only error return (line 68) comes before any
  change of the summary, so a failed call leaves the summary as it found it. The
  entries of the map are pointers, each stored under its own number only, so the map of
  records has the same content.
\<close>

partial_function (option) ProcessIssue ::
  "Client \<Rightarrow> CheckSummary \<Rightarrow> int \<Rightarrow> (error option \<times> CheckSummary) outcome option" where
  "ProcessIssue client cs issueNumber =
     (case Issues cs issueNumber of
        Some info \<Rightarrow>
          Some (Returned (None, storeIssue cs issueNumber (info\<lparr>RefCount := RefCount info + 1\<rparr>)))
      | None \<Rightarrow>
          (case GetIssue client (IssuesRepo cs) issueNumber of
             Inl err \<Rightarrow>
               Some (Returned (Some (Wrap (''failed to get issue '' @ showInt issueNumber) err), cs))
           | Inr issue \<Rightarrow>
               (let info = newIssueInfo issueNumber issue in
                case GetParentIssueNumber client (IssuesRepo cs) issueNumber of
                  Inl err \<Rightarrow> Some (Returned (None, storeIssue cs issueNumber info))
                | Inr parentNum \<Rightarrow>
                    if parentNum > 0 then
                      (let info = info\<lparr>ParentNumber := parentNum\<rparr> in
                       case Issues cs parentNum of
                         None \<Rightarrow>
                           Option.bind (ProcessIssue client cs parentNum)
                             (\<lambda>r. case r of
                                Returned (None, cs') \<Rightarrow>
                                  Some (obind (appendChild cs' parentNum issueNumber)
                                         (\<lambda>cs''. Returned (None, storeIssue cs'' issueNumber info)))
                              | Returned (Some err, cs') \<Rightarrow>
                                  Some (Returned (None, storeIssue cs' issueNumber info))
                              | Panicked m \<Rightarrow> Some (Panicked m)
                              | OutsideModel m \<Rightarrow> Some (OutsideModel m))
                       | Some _ \<Rightarrow>
                           Some (obind (appendChild cs parentNum issueNumber)
                                  (\<lambda>cs''. Returned (None, storeIssue cs'' issueNumber info))))
                    else Some (Returned (None, storeIssue cs issueNumber info)))))"

subsection \<open>Display: the readiness verdict\<close>

text \<open>
  The inner loop of \<^verbatim>\<open>Display\<close> over the children of one entry. It reads
  \<^verbatim>\<open>cs.Issues[childNum].Progress\<close>: a child number with no entry in the map is a nil
  pointer, and reading its field panics. The first child that is not verified clears
  \<^verbatim>\<open>allVerified\<close> and leaves the inner loop only.
\<close>

fun childrenVerified :: "(int \<rightharpoonup> IssueInfo) \<Rightarrow> int list \<Rightarrow> bool \<Rightarrow> bool outcome" where
  "childrenVerified issues [] allVerified = Returned allVerified"
| "childrenVerified issues (childNum # rest) allVerified =
     (case issues childNum of
        None \<Rightarrow> Panicked ''nil pointer dereference''
      | Some child \<Rightarrow>
          if Progress child \<noteq> EmojiVerified then Returned False
          else childrenVerified issues rest allVerified)"

text \<open>
  The outer loop ranges over the map. Go leaves the order of a map range unspecified, so
  the order is the parameter \<open>keys\<close>: the keys of the map in the order this run visits
  them. An entry without children that is not verified clears \<^verbatim>\<open>allVerified\<close> and
  leaves the outer loop.
\<close>

fun allVerifiedLoop :: "(int \<rightharpoonup> IssueInfo) \<Rightarrow> int list \<Rightarrow> bool \<Rightarrow> bool outcome" where
  "allVerifiedLoop issues [] allVerified = Returned allVerified"
| "allVerifiedLoop issues (k # keys) allVerified =
     (case issues k of
        None \<Rightarrow> allVerifiedLoop issues keys allVerified
      | Some info \<Rightarrow>
          if length (Children info) > 0 then
            obind (childrenVerified issues (Children info) allVerified)
              (\<lambda>allVerified'. allVerifiedLoop issues keys allVerified')
          else if Progress info \<noteq> EmojiVerified then Returned False
          else allVerifiedLoop issues keys allVerified)"

text \<open>
  \<open>Display_ready cs keys\<close> is whether \<^verbatim>\<open>Display\<close> prints "All checks passed! Ready to
  release."
\<close>

definition Display_ready :: "CheckSummary \<Rightarrow> int list \<Rightarrow> bool outcome" where
  "Display_ready cs keys =
     obind (allVerifiedLoop (Issues cs) keys True)
       (\<lambda>allVerified. Returned (length (UnlinkedPRs cs) = 0 \<and> allVerified))"

text \<open>What the verdict is said to be: the three conditions on a summary.\<close>

definition leaves_verified :: "(int \<rightharpoonup> IssueInfo) \<Rightarrow> bool" where
  "leaves_verified issues \<longleftrightarrow>
     (\<forall>k info. issues k = Some info \<and> Children info = [] \<longrightarrow> Progress info = EmojiVerified)"

definition children_verified :: "(int \<rightharpoonup> IssueInfo) \<Rightarrow> bool" where
  "children_verified issues \<longleftrightarrow>
     (\<forall>k info. issues k = Some info \<longrightarrow>
        (\<forall>c \<in> set (Children info). \<exists>child. issues c = Some child \<and> Progress child = EmojiVerified))"

section \<open>semver.go\<close>

text \<open>
  A backslash cannot stand in a string literal, so the patterns of the source are
  spelled with \<open>bs\<close> for it.
\<close>

definition bs :: string where
  "bs = [CHR 0x5C]"



text \<open>\<^verbatim>\<open>^(.*-testing\.)(\d+)$\<close>\<close>

definition testingPattern :: string where
  "testingPattern = ''^(.*-testing'' @ bs @ ''.)('' @ bs @ ''d+)$''"

definition incrementTestingNumber :: "string \<Rightarrow> (error + string) outcome" where
  "incrementTestingNumber version = obind (MustCompile testingPattern) (\<lambda>re.
     Returned
       (case FindStringSubmatch re version of
          None \<Rightarrow> Inl (Errorf (''invalid testing version format: '' @ version))
        | Some matches \<Rightarrow>
            if length matches \<noteq> 3 then
              Inl (Errorf (''invalid testing version format: '' @ version))
            else
              (let prefix = matches ! 1 in
               case Atoi (matches ! 2) of
                 Inl err \<Rightarrow> Inl (Wrap ''failed to parse testing number'' err)
               | Inr num \<Rightarrow> Inr (prefix @ showInt (wrap64 (num + 1))))))"



definition GetReleaseCommitSHA :: "Client \<Rightarrow> string \<Rightarrow> string \<Rightarrow> error + string" where
  "GetReleaseCommitSHA client repo tag =
     (case GetCommitSHA client repo (''tags/'' @ tag) of
        Inl err \<Rightarrow> Inl (Wrap (''failed to get commit SHA for tag '' @ tag) err)
      | Inr sha \<Rightarrow> Inr sha)"

definition GetMainBranchSHA :: "Client \<Rightarrow> string \<Rightarrow> error + string" where
  "GetMainBranchSHA client repo = wrap ''failed to get main branch SHA'' (GetCommitSHA client repo ''heads/main'')"


subsection \<open>FindPreviousRelease\<close>

text \<open>The loop that looks for the current tag: the first index that carries it, or -1.\<close>

fun findCurrentIndex :: "Release list \<Rightarrow> string \<Rightarrow> nat \<Rightarrow> int" where
  "findCurrentIndex [] currentTag i = - 1"
| "findCurrentIndex (r # rs) currentTag i =
     (if TagName r = currentTag then int i else findCurrentIndex rs currentTag (i + 1))"

text \<open>The loop that looks for a stable release from index \<open>i\<close> on.\<close>

function findStableFrom :: "Release list \<Rightarrow> nat \<Rightarrow> error + string" where
  "findStableFrom allReleases i =
     (if i < length allReleases then
        (if \<not> IsPrerelease (allReleases ! i) then Inr (TagName (allReleases ! i))
         else findStableFrom allReleases (i + 1))
      else Inl (Errorf ''no previous stable release found''))"
  by pat_completeness auto
termination
  by (relation "measure (\<lambda>(allReleases, i). length allReleases - i)") auto

definition FindPreviousRelease :: "Client \<Rightarrow> string \<Rightarrow> string \<Rightarrow> error + string" where
  "FindPreviousRelease client repo currentTag =
     (case ViewRelease client repo currentTag of
        Inl err \<Rightarrow> Inl (Wrap ''failed to view current release'' err)
      | Inr currentRelease \<Rightarrow>
          (case ListReleases client repo 1000 False of
             Inl err \<Rightarrow> Inl (Wrap ''failed to list releases'' err)
           | Inr allReleases \<Rightarrow>
               (let currentIndex = findCurrentIndex allReleases currentTag 0 in
                if currentIndex = - 1 then Inl (Errorf ''current release not found in release list'')
                else if currentIndex = int (length allReleases) - 1 then
                  Inl (Errorf ''no previous release found'')
                else if IsPrerelease currentRelease then
                  Inr (TagName (allReleases ! nat (currentIndex + 1)))
                else findStableFrom allReleases (nat (currentIndex + 1)))))"

section \<open>repo.go\<close>

text \<open>\<^verbatim>\<open>^[^/]+/ns8-\<close>\<close>

definition ns8ModulePattern :: string where
  "ns8ModulePattern = ''^[^/]+/ns8-''"

definition ValidateRepository :: "Client \<Rightarrow> string \<Rightarrow> error option outcome" where
  "ValidateRepository client repo = obind (MustCompile ns8ModulePattern) (\<lambda>re.
     Returned
       (if \<not> MatchString re repo then
          Some (Errorf (''invalid NS8 module name: '' @ repo @ '' (must match owner/ns8-*)''))
        else
          (case GetRepository client repo of
             Inl err \<Rightarrow> Some (Wrap (''invalid repo: '' @ repo) err)
           | Inr _ \<Rightarrow> None)))"

definition GetOrValidateRepo :: "Client \<Rightarrow> string \<Rightarrow> (error + string) outcome" where
  "GetOrValidateRepo client repo =
     (case (if repo = [] then GetCurrentRepository client else Inr repo) of
        Inl err \<Rightarrow>
          Returned (Inl (Errorf
            ''could not determine the repo. Please provide the repo name using the --repo flag''))
      | Inr repo' \<Rightarrow>
          obind (ValidateRepository client repo') (\<lambda>res.
            Returned (case res of Some err \<Rightarrow> Inl err | None \<Rightarrow> Inr repo')))"

record CommitInfo =
  SHA :: string
  Target :: string


definition GetLatestRelease :: "Client \<Rightarrow> string \<Rightarrow> bool \<Rightarrow> error + Release" where
  "GetLatestRelease client repo excludePreReleases =
     (case ListReleases client repo 1 excludePreReleases of
        Inl err \<Rightarrow> Inl (Wrap ''failed to list releases'' err)
      | Inr releases \<Rightarrow>
          (case releases of
             [] \<Rightarrow> Inl (Errorf ''no releases found'')
           | r # _ \<Rightarrow> Inr r))"

subsection \<open>ScanForPRs\<close>

text \<open>
  The loop over the commits of the range, filling \<^verbatim>\<open>prMap\<close>. The map is used as a set
  of pull request numbers.
\<close>

fun collectPRs :: "Client \<Rightarrow> string \<Rightarrow> string list \<Rightarrow> int set \<Rightarrow> int set" where
  "collectPRs client repo [] prMap = prMap"
| "collectPRs client repo (sha # commits) prMap =
     (case GetPullRequestsForCommit client repo sha of
        Inl err \<Rightarrow> collectPRs client repo commits prMap
      | Inr prs \<Rightarrow> collectPRs client repo commits (prMap \<union> set prs))"

text \<open>
  The slice returned lists the keys of the map in the order in which the runtime ranges
  over it, which Go leaves open: \<open>rangeOrder\<close> is that order.
\<close>

definition ScanForPRs ::
  "Client \<Rightarrow> (int set \<Rightarrow> int list) \<Rightarrow> string \<Rightarrow> string \<Rightarrow> string \<Rightarrow> error + int list" where
  "ScanForPRs client rangeOrder repo startRef endRef =
     (case CompareCommits client repo startRef endRef of
        Inl err \<Rightarrow> Inl (Wrap ''failed to compare commits'' err)
      | Inr commits \<Rightarrow>
          if length commits = 0 then Inl (Errorf ''no commits found in the specified range'')
          else
            (let prMap = collectPRs client repo commits {} in
             if prMap = {} then
               Inl (Errorf ''no pull requests found for the commits in the specified range'')
             else Inr (rangeOrder prMap)))"

subsection \<open>GetLinkedIssues\<close>

text \<open>The loop over the matches of one pattern.\<close>

fun collectMatches :: "string list list \<Rightarrow> int list \<Rightarrow> int list outcome" where
  "collectMatches [] issueNumbers = Returned issueNumbers"
| "collectMatches (match # matches) issueNumbers =
     (if length match > 1 then
        obind (Sscanf_d (match ! 1)) (\<lambda>num.
          if num > 0 then collectMatches matches (issueNumbers @ [num])
          else collectMatches matches issueNumbers)
      else collectMatches matches issueNumbers)"

text \<open>The loop over the patterns: each one is compiled when its turn comes.\<close>

fun scanPatterns :: "string list \<Rightarrow> string \<Rightarrow> int list \<Rightarrow> int list outcome" where
  "scanPatterns [] prBody issueNumbers = Returned issueNumbers"
| "scanPatterns (pattern # patterns) prBody issueNumbers =
     obind (MustCompile pattern) (\<lambda>re.
       obind (collectMatches (FindAllStringSubmatch re prBody) issueNumbers)
         (\<lambda>issueNumbers'. scanPatterns patterns prBody issueNumbers'))"

text \<open>
  The three patterns are
  \<^verbatim>\<open>%s/issues/(\d+)\<close>, \<^verbatim>\<open>%s/%s#(\d+)\<close> and \<^verbatim>\<open>https://github\.com/%s/%s/issues/(\d+)\<close>,
  with the owner and the repository printed into them as they are.
\<close>

definition GetLinkedIssues :: "string \<Rightarrow> string \<Rightarrow> int list outcome" where
  "GetLinkedIssues prBody issuesRepo =
     (case Split issuesRepo CHR ''/'' of
        [owner, repo] \<Rightarrow>
          scanPatterns
            [owner @ ''/issues/('' @ bs @ ''d+)'',
             owner @ ''/'' @ repo @ ''#('' @ bs @ ''d+)'',
             ''https://github'' @ bs @ ''.com/'' @ owner @ ''/'' @ repo @ ''/issues/('' @ bs @ ''d+)'']
            prBody []
      | _ \<Rightarrow> Returned [])"

section \<open>The check command\<close>

text \<open>
  A computation of the check command may not return (\<open>None\<close>), may panic, and otherwise
  returns a value.
\<close>

definition cbind :: "'a outcome option \<Rightarrow> ('a \<Rightarrow> 'b outcome option) \<Rightarrow> 'b outcome option" where
  "cbind m f =
     Option.bind m (\<lambda>r. case r of
        Returned x \<Rightarrow> f x
      | Panicked msg \<Rightarrow> Some (Panicked msg)
      | OutsideModel msg \<Rightarrow> Some (OutsideModel msg))"

text \<open>The loop that marks the commits that belong to a pull request.\<close>

fun markCommits :: "Client \<Rightarrow> string \<Rightarrow> string list \<Rightarrow> string set \<Rightarrow> string set" where
  "markCommits client repo [] commitsInPRs = commitsInPRs"
| "markCommits client repo (sha # commits) commitsInPRs =
     (case GetPullRequestsForCommit client repo sha of
        Inr prs \<Rightarrow>
          if length prs > 0 then markCommits client repo commits (insert sha commitsInPRs)
          else markCommits client repo commits commitsInPRs
      | Inl err \<Rightarrow> markCommits client repo commits commitsInPRs)"

text \<open>
  The loop over the issues linked by one pull request. An error of \<^verbatim>\<open>ProcessIssue\<close> is
  printed as a warning and the loop goes on.
\<close>

fun processLinkedIssues :: "Client \<Rightarrow> int list \<Rightarrow> CheckSummary \<Rightarrow> CheckSummary outcome option" where
  "processLinkedIssues client [] summary = Some (Returned summary)"
| "processLinkedIssues client (issueNum # issueNums) summary =
     cbind (ProcessIssue client summary issueNum)
       (\<lambda>(err, summary'). processLinkedIssues client issueNums summary')"

definition commitURL :: "string \<Rightarrow> string \<Rightarrow> string" where
  "commitURL repo sha = ''https://github.com/'' @ repo @ ''/commit/'' @ sha"

definition prURL :: "string \<Rightarrow> int \<Rightarrow> string" where
  "prURL repo prNum = ''https://github.com/'' @ repo @ ''/pull/'' @ showInt prNum"

text \<open>The loop over the pull requests.\<close>

fun processPRs ::
  "Client \<Rightarrow> string \<Rightarrow> string \<Rightarrow> int list \<Rightarrow> CheckSummary \<Rightarrow> CheckSummary outcome option" where
  "processPRs client repo issuesRepoFlag [] summary = Some (Returned summary)"
| "processPRs client repo issuesRepoFlag (prNum # prNumbers) summary =
     (case GetPullRequest client repo prNum of
        Inl err \<Rightarrow> processPRs client repo issuesRepoFlag prNumbers summary
      | Inr pr \<Rightarrow>
          cbind (Some (GetLinkedIssues (Body pr) issuesRepoFlag)) (\<lambda>linkedIssues.
            if length linkedIssues > 0 then
              cbind (processLinkedIssues client linkedIssues summary)
                (\<lambda>summary'. processPRs client repo issuesRepoFlag prNumbers summary')
            else if ''translation'' \<in> set (PRLabels pr) then
              processPRs client repo issuesRepoFlag prNumbers
                (summary\<lparr>TranslationPRs := TranslationPRs summary @ [prURL repo prNum]\<rparr>)
            else
              processPRs client repo issuesRepoFlag prNumbers
                (summary\<lparr>UnlinkedPRs := UnlinkedPRs summary @ [prURL repo prNum]\<rparr>)))"

text \<open>The loop that collects the commits that are in no pull request.\<close>

fun orphanCommits :: "string \<Rightarrow> string set \<Rightarrow> string list \<Rightarrow> CheckSummary \<Rightarrow> CheckSummary" where
  "orphanCommits repo commitsInPRs [] summary = summary"
| "orphanCommits repo commitsInPRs (sha # commits) summary =
     (if sha \<notin> commitsInPRs then
        orphanCommits repo commitsInPRs commits
          (summary\<lparr>OrphanCommits := OrphanCommits summary @ [commitURL repo sha]\<rparr>)
      else orphanCommits repo commitsInPRs commits summary)"

text \<open>
  What a run of the command comes to: an error, one of the two early messages, or the
  summary it displays. With the summary come the commits of the range and the set
  \<^verbatim>\<open>commitsInPRs\<close>, which the command holds when it displays the summary.
\<close>

datatype check_result =
    CheckFailed error
  | NothingToRelease
  | NoCommitsFound
  | Displayed CheckSummary "string list" "string set"

text \<open>
  \<open>newClient\<close> is the result of \<^verbatim>\<open>github.NewClient()\<close>; \<open>repoFlag\<close> and
  \<open>issuesRepoFlag\<close> are the flags of the command.
\<close>

text \<open>
  The command from the scan for pull requests on (lines 70 to 135), for the commits of
  the range.
\<close>

definition checkRange ::
  "Client \<Rightarrow> (int set \<Rightarrow> int list) \<Rightarrow> string \<Rightarrow> string \<Rightarrow> string \<Rightarrow> string list \<Rightarrow>
     check_result outcome option" where
  "checkRange client rangeOrder repo issuesRepoFlag tag commits =
     (case ScanForPRs client rangeOrder repo tag ''main'' of
        Inl err \<Rightarrow> Some (Returned (CheckFailed (Wrap ''error processing PRs'' err)))
      | Inr prNumbers \<Rightarrow>
          (let commitsInPRs = markCommits client repo commits {} in
           cbind (processPRs client repo issuesRepoFlag prNumbers (NewCheckSummary issuesRepoFlag))
             (\<lambda>summary. Some (Returned
                (Displayed (orphanCommits repo commitsInPRs commits summary) commits commitsInPRs)))))"

text \<open>The command from the latest stable release on (lines 32 to 68).\<close>

definition checkSince ::
  "Client \<Rightarrow> (int set \<Rightarrow> int list) \<Rightarrow> string \<Rightarrow> string \<Rightarrow> Release \<Rightarrow> check_result outcome option" where
  "checkSince client rangeOrder repo issuesRepoFlag latestRelease =
     (case GetReleaseCommitSHA client repo (TagName latestRelease) of
        Inl err \<Rightarrow> Some (Returned (CheckFailed (Wrap ''failed to get release commit SHA'' err)))
      | Inr latestSHA \<Rightarrow>
          (case GetMainBranchSHA client repo of
             Inl err \<Rightarrow> Some (Returned (CheckFailed (Wrap ''failed to get main branch SHA'' err)))
           | Inr mainSHA \<Rightarrow>
               if latestSHA = mainSHA then Some (Returned NothingToRelease)
               else
                 (case CompareCommits client repo (TagName latestRelease) ''main'' of
                    Inl err \<Rightarrow> Some (Returned (CheckFailed (Wrap ''failed to compare commits'' err)))
                  | Inr commits \<Rightarrow>
                      if length commits = 0 then Some (Returned NoCommitsFound)
                      else checkRange client rangeOrder repo issuesRepoFlag
                             (TagName latestRelease) commits)))"

definition runCheck ::
  "error + Client \<Rightarrow> (int set \<Rightarrow> int list) \<Rightarrow> string \<Rightarrow> string \<Rightarrow> check_result outcome option" where
  "runCheck newClient rangeOrder repoFlag issuesRepoFlag =
     (case newClient of
        Inl err \<Rightarrow> Some (Returned (CheckFailed (Wrap ''failed to create GitHub client'' err)))
      | Inr client \<Rightarrow>
          cbind (Some (GetOrValidateRepo client repoFlag)) (\<lambda>r.
            case r of
              Inl err \<Rightarrow> Some (Returned (CheckFailed err))
            | Inr repo \<Rightarrow>
                (case GetLatestRelease client repo True of
                   Inl err \<Rightarrow> Some (Returned (CheckFailed (Errorf ''no releases found'')))
                 | Inr latestRelease \<Rightarrow>
                     checkSince client rangeOrder repo issuesRepoFlag latestRelease)))"

section \<open>The create command\<close>

text \<open>
  The loop of \<^verbatim>\<open>generateLinkedIssuesNotes\<close> over the issues one pull request links:
  \<^verbatim>\<open>issueMap\<close> keeps the first title fetched for a number.
\<close>

fun collectTitles :: "Client \<Rightarrow> string \<Rightarrow> int list \<Rightarrow> (int \<rightharpoonup> string) \<Rightarrow> (int \<rightharpoonup> string)" where
  "collectTitles client issuesRepo [] issueMap = issueMap"
| "collectTitles client issuesRepo (issueNum # issueNums) issueMap =
     (case issueMap issueNum of
        Some _ \<Rightarrow> collectTitles client issuesRepo issueNums issueMap
      | None \<Rightarrow>
          (case GetIssue client issuesRepo issueNum of
             Inr issue \<Rightarrow> collectTitles client issuesRepo issueNums (issueMap(issueNum \<mapsto> Title issue))
           | Inl err \<Rightarrow> collectTitles client issuesRepo issueNums issueMap))"

fun collectNotes ::
  "Client \<Rightarrow> string \<Rightarrow> string \<Rightarrow> int list \<Rightarrow> (int \<rightharpoonup> string) \<Rightarrow> (int \<rightharpoonup> string) outcome" where
  "collectNotes client repo issuesRepo [] issueMap = Returned issueMap"
| "collectNotes client repo issuesRepo (prNum # prNumbers) issueMap =
     (case GetPullRequest client repo prNum of
        Inl err \<Rightarrow> collectNotes client repo issuesRepo prNumbers issueMap
      | Inr pr \<Rightarrow>
          obind (GetLinkedIssues (Body pr) issuesRepo) (\<lambda>linkedIssues.
            collectNotes client repo issuesRepo prNumbers
              (collectTitles client issuesRepo linkedIssues issueMap)))"

definition noteLine :: "string \<Rightarrow> int \<Rightarrow> string \<Rightarrow> string" where
  "noteLine issuesRepo issueNum title =
     ''- ['' @ issuesRepo @ ''#'' @ showInt issueNum @ ''](https://github.com/'' @ issuesRepo @
     ''/issues/'' @ showInt issueNum @ ''): '' @ title @ [CHR 0x0A]"

text \<open>
  The notes list the entries of \<^verbatim>\<open>issueMap\<close> in the order in which the runtime ranges
  over its keys.
\<close>

definition generateLinkedIssuesNotes ::
  "Client \<Rightarrow> (int set \<Rightarrow> int list) \<Rightarrow> string \<Rightarrow> string \<Rightarrow> string \<Rightarrow> (error + string) outcome" where
  "generateLinkedIssuesNotes client rangeOrder repo previousRelease issuesRepo =
     (case ScanForPRs client rangeOrder repo previousRelease ''main'' of
        Inl err \<Rightarrow> Returned (Inl err)
      | Inr prNumbers \<Rightarrow>
          obind (collectNotes client repo issuesRepo prNumbers Map.empty) (\<lambda>issueMap.
            if issueMap = Map.empty then Returned (Inr [])
            else
              Returned (Inr (''## Linked Issues'' @ [CHR 0x0A] @
                concat (map (\<lambda>issueNum. case issueMap issueNum of
                                            Some title \<Rightarrow> noteLine issuesRepo issueNum title
                                          | None \<Rightarrow> [])
                          (rangeOrder (dom issueMap)))))))"

text \<open>
  A run of the command returns an error before it comes to create the release
  (\<open>Aborted\<close>), or \<^verbatim>\<open>CreateRelease\<close> returns to it (\<open>Created\<close>): then the result holds
  the arguments that \<^verbatim>\<open>CreateRelease\<close> handed to \<^verbatim>\<open>gh.Exec\<close>, and the error that
  the command returns, which is none when the release was created.
\<close>

datatype create_result =
    Aborted error
  | Created "string list" "error option"

record create_flags =
  repoFlag :: string
  issuesRepoFlag :: string
  releaseRefsFlag :: string
  testingFlag :: bool
  draftFlag :: bool
  withLinkedIssuesFlag :: bool

text \<open>
  The source has the command twice. One takes the release name as the argument of the
  command, the other as the flag \<^verbatim>\<open>--release-name\<close>; they differ in nothing else but
  the message that asks for the name. \<open>createWith\<close> is the body they share, in
  four parts: up to the commit (\<open>createWith\<close>), the prerelease flag and the generated
  name (\<open>createFor\<close>, lines 61 to 70), the checks of the name (\<open>createChecked\<close>, lines
  72 to 79), and from the previous release to the call (\<open>createNamed\<close>, lines 81 to 113).
  The variable \<^verbatim>\<open>notesReader\<close> is a \<^verbatim>\<open>*bytes.Buffer\<close>, nil unless notes were generated,
  and \<^verbatim>\<open>CreateRelease\<close> takes it as an \<^verbatim>\<open>io.Reader\<close>.
\<close>

definition createNamed ::
  "Client \<Rightarrow> (int set \<Rightarrow> int list) \<Rightarrow> create_flags \<Rightarrow> string \<Rightarrow> CommitInfo \<Rightarrow> bool \<Rightarrow> string \<Rightarrow>
     create_result outcome" where
  "createNamed client rangeOrder flags repo commitInfo isPrerelease releaseName =
     (let previousRelease =
            (case GetLatestRelease client repo (\<not> isPrerelease) of
               Inr release \<Rightarrow> TagName release
             | Inl err \<Rightarrow> [])
      in obind (if withLinkedIssuesFlag flags \<and> previousRelease \<noteq> []
                then generateLinkedIssuesNotes client rangeOrder repo previousRelease
                       (issuesRepoFlag flags)
                else Returned (Inr []))
           (\<lambda>notes.
              let notesReader = (case notes of
                                   Inr text \<Rightarrow> if text \<noteq> [] then Buffer text else NilBuffer
                                 | Inl err \<Rightarrow> NilBuffer);
                  target = Target commitInfo
              in obind (CreateRelease client repo releaseName releaseName (draftFlag flags)
                          isPrerelease target notesReader)
                   (\<lambda>(executed, err).
                      Returned (Created executed
                                  (map_option (Wrap ''failed to create release'') err)))))"






section \<open>Inputs for the concrete cases\<close>

text \<open>
  A parent issue 1 with the label \<^verbatim>\<open>verified\<close> and the children 2 (verified) and 3
  (testing), and the same summary with one pull request that links no issue.
\<close>

definition entry :: "int \<Rightarrow> string \<Rightarrow> int \<Rightarrow> int list \<Rightarrow> IssueInfo" where
  "entry n progress parent children =
     \<lparr>Number = n, Status = EmojiOpenIssue, Progress = progress, Labels = [], RefCount = 1,
      ParentNumber = parent, Children = children\<rparr>"

definition family :: "string \<Rightarrow> CheckSummary" where
  "family progress3 =
     \<lparr>UnlinkedPRs = [], TranslationPRs = [], OrphanCommits = [],
      Issues = [1 \<mapsto> entry 1 EmojiVerified 0 [2, 3],
                2 \<mapsto> entry 2 EmojiVerified 1 [],
                3 \<mapsto> entry 3 progress3 1 []],
      IssuesRepo = ''NethServer/dev''\<rparr>"

text \<open>
  A chain: issue 1 has the child 2, which has the child 3. Issues 1 and 3 are verified.
\<close>

definition lineage :: "string \<Rightarrow> CheckSummary" where
  "lineage progress2 =
     \<lparr>UnlinkedPRs = [], TranslationPRs = [], OrphanCommits = [],
      Issues = [1 \<mapsto> entry 1 EmojiVerified 0 [2],
                2 \<mapsto> entry 2 progress2 1 [3],
                3 \<mapsto> entry 3 EmojiVerified 2 []],
      IssuesRepo = ''NethServer/dev''\<rparr>"

text \<open>A platform that answers no request.\<close>

definition offline :: Client where
  "offline =
     \<lparr>rest_repo = (\<lambda>repo. Inl (Transport ''offline'')),
      rest_commits = (\<lambda>repo. Inl (Transport ''offline'')),
      rest_ref = (\<lambda>repo ref. Inl (Transport ''offline'')),
      rest_compare = (\<lambda>repo base head. Inl (Transport ''offline'')),
      rest_merge_base = (\<lambda>repo base head. Inl (Transport ''offline'')),
      gh_release_list = (\<lambda>repo limit excl. Inl (Transport ''offline'')),
      gh_release_view = (\<lambda>repo tag. Inl (Transport ''offline'')),
      gh_exec = (\<lambda>args. Some (Transport ''offline'')),
      rest_commit_pulls = (\<lambda>repo sha. Inl (Transport ''offline'')),
      rest_pull = (\<lambda>repo n. Inl (Transport ''offline'')),
      rest_issue = (\<lambda>repo n. Inl (Transport ''offline'')),
      graphql_parent = (\<lambda>owner name n. Inl (Transport ''offline'')),
      gh_repo_view = Inl (Transport ''offline'')\<rparr>"

text \<open>
  A platform that knows the issues of a tracker only: for each issue its state, its
  labels and its parent.
\<close>

definition issuesOf :: "(int \<Rightarrow> (string \<times> string list \<times> int option) option) \<Rightarrow> Client" where
  "issuesOf tracker =
     offline\<lparr>rest_issue := (\<lambda>repo n. case tracker n of
                   Some (state, labels, parent) \<Rightarrow>
                     Inr \<lparr>IssueNumber = n, Title = [], State = state, IssueLabels = labels\<rparr>
                 | None \<Rightarrow> Inl (Transport ''not found'')),
             graphql_parent := (\<lambda>owner name n. case tracker n of
                   Some (state, labels, parent) \<Rightarrow> Inr parent
                 | None \<Rightarrow> Inl (Transport ''not found''))\<rparr>"

text \<open>Issue 1 has the parent 2, and issue 2 has the parent 1.\<close>

definition cyclic :: "int \<Rightarrow> (string \<times> string list \<times> int option) option" where
  "cyclic n = (if n = 1 then Some (''open'', [], Some 2)
               else if n = 2 then Some (''open'', [], Some 1) else None)"

text \<open>Issue 3 has the parent 2, issue 2 has the parent 1, issue 1 has none.\<close>

definition chain :: "int \<Rightarrow> (string \<times> string list \<times> int option) option" where
  "chain n = (if n = 1 then Some (''closed'', [''verified''], None)
              else if n = 2 then Some (''CLOSED'', [''testing'', ''bug''], Some 1)
              else if n = 3 then Some (''open'', [], Some 2) else None)"

text \<open>One issue, whose state is spelled \<^verbatim>\<open>Closed\<close>.\<close>

definition mixedCase :: "int \<Rightarrow> (string \<times> string list \<times> int option) option" where
  "mixedCase n = (if n = 1 then Some (''Closed'', [], None) else None)"

text \<open>
  A module repository with four releases, three commits since the latest stable release
  and one pull request, which links issue 3 of the chain above. The lookup of the pull
  requests of commit \<^verbatim>\<open>c2\<close> fails, and commit \<^verbatim>\<open>c3\<close> is in no pull request.
\<close>

definition release :: "string \<Rightarrow> bool \<Rightarrow> string \<Rightarrow> Release" where
  "release tag pre created =
     \<lparr>TagName = tag, ReleaseName = tag, IsPrerelease = pre, CreatedAt = created\<rparr>"

definition demoReleases :: "Release list" where
  "demoReleases =
     [release ''1.0.1-testing.1'' True ''2024-03-01'',
      release ''1.0.0'' False ''2024-02-01'',
      release ''0.9.1-testing.1'' True ''2024-01-15'',
      release ''0.9.0'' False ''2024-01-01'']"

definition demo :: Client where
  "demo = (issuesOf chain)
     \<lparr>rest_repo := (\<lambda>repo. if repo = ''NethServer/ns8-demo''
                       then Inr \<lparr>Owner = ''NethServer'', Name = ''ns8-demo'', DefaultBranchRef = ''main''\<rparr>
                       else Inl (Transport ''not found'')),
      rest_commits := (\<lambda>repo. Inr [''c3'', ''c2'', ''c1'', ''c0'']),
      rest_ref := (\<lambda>repo ref. if ref = ''tags/1.0.0'' then Inr ''c0''
                       else if ref = ''heads/main'' then Inr ''c3''
                       else Inl (Transport ''not found'')),
      rest_compare := (\<lambda>repo base head. if base = ''1.0.0'' \<and> head = ''main''
                       then Inr [''c1'', ''c2'', ''c3''] else Inr []),
      gh_release_list := (\<lambda>repo limit excl.
                       Inr (take (nat limit) (filter (\<lambda>r. \<not> excl \<or> \<not> IsPrerelease r) demoReleases))),
      gh_release_view := (\<lambda>repo tag. case filter (\<lambda>r. TagName r = tag) demoReleases of
                         r # _ \<Rightarrow> Inr r | [] \<Rightarrow> Inl (Transport ''not found'')),
      gh_exec := (\<lambda>args. None),
      rest_commit_pulls := (\<lambda>repo sha. if sha = ''c1'' then Inr [7]
                       else if sha = ''c2'' then Inl (Transport ''timeout'')
                       else Inr []),
      rest_pull := (\<lambda>repo n. if n = 7
                       then Inr \<lparr>PRNumber = 7, Body = ''Fixes NethServer/dev#3'', PRLabels = []\<rparr>
                       else Inl (Transport ''not found''))\<rparr>"

text \<open>The same repository when no lookup of the pull requests of a commit succeeds.\<close>

definition demoNoPulls :: Client where
  "demoNoPulls = demo\<lparr>rest_commit_pulls := (\<lambda>repo sha. Inl (Transport ''timeout''))\<rparr>"






text \<open>The summary that the check command displays for this repository.\<close>

definition demoSummary :: CheckSummary where
  "demoSummary =
     \<lparr>UnlinkedPRs = [], TranslationPRs = [],
      OrphanCommits = [''https://github.com/NethServer/ns8-demo/commit/c2'',
                       ''https://github.com/NethServer/ns8-demo/commit/c3''],
      Issues = [1 \<mapsto> \<lparr>Number = 1, Status = EmojiClosedIssue, Progress = EmojiVerified,
                       Labels = [], RefCount = 1, ParentNumber = 0, Children = [2]\<rparr>,
                2 \<mapsto> \<lparr>Number = 2, Status = EmojiClosedIssue, Progress = EmojiTesting,
                       Labels = ''bug'', RefCount = 1, ParentNumber = 1, Children = [3]\<rparr>,
                3 \<mapsto> \<lparr>Number = 3, Status = EmojiOpenIssue, Progress = EmojiInProgress,
                       Labels = [], RefCount = 1, ParentNumber = 2, Children = []\<rparr>],
      IssuesRepo = ''NethServer/dev''\<rparr>"

text \<open>
  The pull request numbers that the scan of a range is said to end with: those of the
  commits whose lookup succeeds.
\<close>

definition accumulated_PRs :: "Client \<Rightarrow> string \<Rightarrow> string list \<Rightarrow> int set" where
  "accumulated_PRs client repo commits =
     (\<Union>sha \<in> set commits. case GetPullRequestsForCommit client repo sha of
                               Inr prs \<Rightarrow> set prs | Inl err \<Rightarrow> {})"

section \<open>Notions for the proofs about the patterns\<close>









section \<open>The readiness verdict\<close>

lemma obind_Returned:
  "obind m f = Returned y \<longleftrightarrow> (\<exists>x. m = Returned x \<and> f x = Returned y)"
  by (cases m) auto

lemma childrenVerified_True:
  "childrenVerified issues cs av = Returned True \<longleftrightarrow>
     av \<and> (\<forall>c \<in> set cs. \<exists>child. issues c = Some child \<and> Progress child = EmojiVerified)"
  by (induction cs) (auto split: option.splits)

lemma allVerifiedLoop_True:
  "allVerifiedLoop issues keys av = Returned True \<longleftrightarrow>
     av \<and> (\<forall>k \<in> set keys. \<forall>info. issues k = Some info \<longrightarrow>
            (Children info = [] \<longrightarrow> Progress info = EmojiVerified) \<and>
            (\<forall>c \<in> set (Children info).
               \<exists>child. issues c = Some child \<and> Progress child = EmojiVerified))"
proof (induction keys arbitrary: av)
  case Nil
  then show ?case by simp
next
  case (Cons k keys)
  show ?case
  proof (cases "issues k")
    case None
    then show ?thesis using Cons.IH [of av] by simp
  next
    case (Some info)
    show ?thesis
    proof (cases "Children info = []")
      case True
      then show ?thesis using Some Cons.IH [of av] by auto
    next
      case False
      have "allVerifiedLoop issues (k # keys) av = Returned True \<longleftrightarrow>
            (\<exists>b. childrenVerified issues (Children info) av = Returned b \<and>
                 allVerifiedLoop issues keys b = Returned True)"
        using Some False by (simp add: obind_Returned)
      also have "\<dots> \<longleftrightarrow> childrenVerified issues (Children info) av = Returned True \<and>
                 allVerifiedLoop issues keys True = Returned True"
        using Cons.IH by (metis (full_types))
      finally show ?thesis
        using Some False Cons.IH [of True] by (auto simp: childrenVerified_True)
    qed
  qed
qed

lemma Display_ready_True:
  "Display_ready cs keys = Returned True \<longleftrightarrow>
     UnlinkedPRs cs = [] \<and> allVerifiedLoop (Issues cs) keys True = Returned True"
  by (auto simp: Display_ready_def obind_Returned)

text \<open>
  The progress of an entry that has children and is the child of no entry is read by
  neither loop: whatever it is changed to, \<^verbatim>\<open>Display\<close> does the same.
\<close>

lemma childrenVerified_other:
  "k \<notin> set cs \<Longrightarrow> childrenVerified (issues(k \<mapsto> x)) cs av = childrenVerified issues cs av"
  by (induction cs) (auto split: option.splits)

lemma allVerifiedLoop_root:
  assumes "issues k = Some info" and "Children info \<noteq> []"
    and "\<forall>j parent. issues j = Some parent \<longrightarrow> k \<notin> set (Children parent)"
  shows "allVerifiedLoop (issues(k \<mapsto> info\<lparr>Progress := tier\<rparr>)) keys av =
         allVerifiedLoop issues keys av"
proof -
  define issues' where "issues' = issues(k \<mapsto> info\<lparr>Progress := tier\<rparr>)"
  have k: "issues' k = Some (info\<lparr>Progress := tier\<rparr>)" by (simp add: issues'_def)
  have other: "\<And>j. j \<noteq> k \<Longrightarrow> issues' j = issues j" by (simp add: issues'_def)
  have children: "\<And>cs av. k \<notin> set cs \<Longrightarrow>
      childrenVerified issues' cs av = childrenVerified issues cs av"
    unfolding issues'_def by (rule childrenVerified_other)
  have "allVerifiedLoop issues' keys av = allVerifiedLoop issues keys av"
  proof (induction keys arbitrary: av)
    case Nil
    show ?case by simp
  next
    case (Cons j keys)
    have ih: "allVerifiedLoop issues' keys = allVerifiedLoop issues keys"
      by (rule ext) (rule Cons.IH)
    show ?case
    proof (cases "j = k")
      case True
      have "k \<notin> set (Children info)" using assms(1,3) by blast
      then show ?thesis
        using True assms(1,2) k by (simp add: children ih)
    next
      case False
      show ?thesis
      proof (cases "issues j")
        case None
        then show ?thesis using False other [OF False] by (simp add: ih)
      next
        case (Some parent)
        then have "k \<notin> set (Children parent)" using assms(3) by blast
        then show ?thesis
          using False Some other [OF False] by (simp add: children ih)
      qed
    qed
  qed
  then show ?thesis by (simp only: issues'_def)
qed

text \<open>
  C1. \<^verbatim>\<open>Display\<close> prints that all checks passed exactly when no pull request is
  unlinked, every entry without children is verified, and every child of every entry
  with children is verified. The keys may be visited in any order. The progress of an
  entry with children is read only where the entry is itself the child of another one:
  for an entry with children that is no entry's child, the verdict (and a panic, if
  there is one) is the same whatever its progress is.
\<close>

theorem Display_ready_iff:
  assumes "set keys = dom (Issues cs)"
  shows "(Display_ready cs keys = Returned True \<longleftrightarrow>
            UnlinkedPRs cs = [] \<and> leaves_verified (Issues cs) \<and> children_verified (Issues cs)) \<and>
         (\<forall>k info tier.
            Issues cs k = Some info \<and> Children info \<noteq> [] \<and>
            (\<forall>j parent. Issues cs j = Some parent \<longrightarrow> k \<notin> set (Children parent)) \<longrightarrow>
            Display_ready (cs\<lparr>Issues := (Issues cs)(k \<mapsto> info\<lparr>Progress := tier\<rparr>)\<rparr>) keys =
              Display_ready cs keys)"
proof -
  have "allVerifiedLoop (Issues cs) keys True = Returned True \<longleftrightarrow>
          leaves_verified (Issues cs) \<and> children_verified (Issues cs)"
    unfolding allVerifiedLoop_True leaves_verified_def children_verified_def
    using assms by (auto simp: dom_def)
  then have 1: "Display_ready cs keys = Returned True \<longleftrightarrow>
            UnlinkedPRs cs = [] \<and> leaves_verified (Issues cs) \<and> children_verified (Issues cs)"
    by (simp add: Display_ready_True)
  have 2: "\<forall>k info tier.
            Issues cs k = Some info \<and> Children info \<noteq> [] \<and>
            (\<forall>j parent. Issues cs j = Some parent \<longrightarrow> k \<notin> set (Children parent)) \<longrightarrow>
            Display_ready (cs\<lparr>Issues := (Issues cs)(k \<mapsto> info\<lparr>Progress := tier\<rparr>)\<rparr>) keys =
              Display_ready cs keys"
    by (simp add: Display_ready_def allVerifiedLoop_root)
  from 1 2 show ?thesis by (rule conjI)
qed

lemma family_dom: "set [1, 2, 3] = dom (Issues (family progress3))"
  by (auto simp: family_def split: if_splits)

lemma family_testing_not_verified: "\<not> children_verified (Issues (family EmojiTesting))"
proof
  assume "children_verified (Issues (family EmojiTesting))"
  then have "\<exists>child. Issues (family EmojiTesting) 3 = Some child \<and> Progress child = EmojiVerified"
    unfolding children_verified_def
    by (rule allE [where x = 1]) (simp add: family_def entry_def)
  then show False
    by (simp add: family_def entry_def EmojiTesting_def EmojiVerified_def)
qed

lemma family_root:
  "Issues (family progress3) 1 = Some (entry 1 EmojiVerified 0 [2, 3]) \<and>
   Children (entry 1 EmojiVerified 0 [2, 3]) \<noteq> [] \<and>
   (\<forall>j parent. Issues (family progress3) j = Some parent \<longrightarrow> 1 \<notin> set (Children parent))"
  by (auto simp: family_def entry_def split: if_splits)

text \<open>
  The parent 1 is verified, its child 2 is verified and its child 3 is testing: the
  verdict is not "passed". And with all three verified, the verdict is the same when the
  parent 1 is put back to testing.
\<close>

theorem Display_ready_iff_witness:
  "set [1, 2, 3] = dom (Issues (family EmojiTesting)) \<and>
   Progress (the (Issues (family EmojiTesting) 1)) = EmojiVerified \<and>
   Display_ready (family EmojiTesting) [1, 2, 3] \<noteq> Returned True \<and>
   Display_ready
     ((family EmojiVerified)
        \<lparr>Issues := (Issues (family EmojiVerified))
           (1 \<mapsto> (entry 1 EmojiVerified 0 [2, 3])\<lparr>Progress := EmojiTesting\<rparr>)\<rparr>) [1, 2, 3] =
     Display_ready (family EmojiVerified) [1, 2, 3]"
  using Display_ready_iff [OF family_dom, of EmojiTesting, THEN conjunct1]
    Display_ready_iff [OF family_dom, of EmojiVerified, THEN conjunct2, rule_format, OF family_root,
      of EmojiTesting]
    family_testing_not_verified family_dom
  by (simp add: family_def entry_def)

text \<open>
  C1, where the progress of an entry with children does count. In the chain of the
  issues 1, 2 and 3, issue 2 has the child 3 and is itself a child of issue 1. With the
  three issues verified the verdict is "passed"; with issue 2 in testing and nothing
  else changed, it is not.
\<close>

theorem Display_ready_chain_counterexample:
  "Children (the (Issues (lineage EmojiTesting) 2)) = [3] \<and>
   Display_ready (lineage EmojiVerified) [1, 2, 3] = Returned True \<and>
   Display_ready (lineage EmojiTesting) [1, 2, 3] = Returned False"
  by (simp add: Display_ready_def lineage_def entry_def EmojiVerified_def EmojiTesting_def)

text \<open>The two cases the specification names, for any summary.\<close>

lemma Display_ready_unlinked:
  "UnlinkedPRs cs \<noteq> [] \<Longrightarrow> Display_ready cs keys \<noteq> Returned True"
  by (simp add: Display_ready_True)

lemma Display_ready_child_not_verified:
  assumes "k \<in> set keys" and "Issues cs k = Some parent" and "c \<in> set (Children parent)"
    and "Issues cs c = Some child" and "Progress child \<noteq> EmojiVerified"
  shows "Display_ready cs keys \<noteq> Returned True"
  using assms unfolding Display_ready_True allVerifiedLoop_True by fastforce

lemma family_verified_ready: "Display_ready (family EmojiVerified) [1, 2, 3] = Returned True"
  by (simp add: Display_ready_def family_def entry_def)

lemma family_verified_unlinked:
  "Display_ready (family EmojiVerified\<lparr>UnlinkedPRs := [''https://github.com/o/ns8-x/pull/7'']\<rparr>)
     [1, 2, 3] = Returned False"
  by (simp add: Display_ready_def family_def entry_def)

section \<open>ProcessIssue\<close>

subsection \<open>The branches of a call\<close>

lemma ProcessIssue_known:
  "Issues cs n = Some info \<Longrightarrow>
   ProcessIssue client cs n =
     Some (Returned (None, storeIssue cs n (info\<lparr>RefCount := RefCount info + 1\<rparr>)))"
  by (subst ProcessIssue.simps) simp

lemma ProcessIssue_fetch_failed:
  "Issues cs n = None \<Longrightarrow> GetIssue client (IssuesRepo cs) n = Inl err \<Longrightarrow>
   ProcessIssue client cs n =
     Some (Returned (Some (Wrap (''failed to get issue '' @ showInt n) err), cs))"
  by (subst ProcessIssue.simps) simp

lemma ProcessIssue_no_parent:
  "Issues cs n = None \<Longrightarrow> GetIssue client (IssuesRepo cs) n = Inr issue \<Longrightarrow>
   (case GetParentIssueNumber client (IssuesRepo cs) n of Inl e \<Rightarrow> True | Inr p \<Rightarrow> p \<le> 0) \<Longrightarrow>
   ProcessIssue client cs n = Some (Returned (None, storeIssue cs n (newIssueInfo n issue)))"
  by (subst ProcessIssue.simps) (simp split: sum.splits)

lemma ProcessIssue_parent_known:
  "Issues cs n = None \<Longrightarrow> GetIssue client (IssuesRepo cs) n = Inr issue \<Longrightarrow>
   GetParentIssueNumber client (IssuesRepo cs) n = Inr p \<Longrightarrow> 0 < p \<Longrightarrow>
   Issues cs p = Some parent \<Longrightarrow>
   ProcessIssue client cs n =
     Some (obind (appendChild cs p n)
            (\<lambda>cs''. Returned (None, storeIssue cs'' n (newIssueInfo n issue\<lparr>ParentNumber := p\<rparr>))))"
  by (subst ProcessIssue.simps) simp

lemma ProcessIssue_parent_new:
  "Issues cs n = None \<Longrightarrow> GetIssue client (IssuesRepo cs) n = Inr issue \<Longrightarrow>
   GetParentIssueNumber client (IssuesRepo cs) n = Inr p \<Longrightarrow> 0 < p \<Longrightarrow>
   Issues cs p = None \<Longrightarrow>
   ProcessIssue client cs n =
     Option.bind (ProcessIssue client cs p)
       (\<lambda>r. case r of
          Returned (None, cs') \<Rightarrow>
            Some (obind (appendChild cs' p n)
                   (\<lambda>cs''. Returned (None, storeIssue cs'' n (newIssueInfo n issue\<lparr>ParentNumber := p\<rparr>))))
        | Returned (Some err, cs') \<Rightarrow>
            Some (Returned (None, storeIssue cs' n (newIssueInfo n issue\<lparr>ParentNumber := p\<rparr>)))
        | Panicked m \<Rightarrow> Some (Panicked m)
        | OutsideModel m \<Rightarrow> Some (OutsideModel m))"
  by (subst ProcessIssue.simps) (simp add: Let_def)

lemma bind_result_Some:
  "m = Some r \<Longrightarrow>
   \<exists>y. Option.bind m
       (\<lambda>r. case r of
          Returned (None, cs') \<Rightarrow> Some (f cs')
        | Returned (Some err, cs') \<Rightarrow> Some (g cs')
        | Panicked m \<Rightarrow> Some (Panicked m)
        | OutsideModel m \<Rightarrow> Some (OutsideModel m)) = Some y"
  by (auto split: outcome.splits option.splits prod.splits)

lemma Split_NethServer_dev [simp]:
  "Split ''NethServer/dev'' CHR ''/'' = [''NethServer'', ''dev'']"
  by (simp add: Split_def)

lemma GetIssue_issuesOf [simp]:
  "GetIssue (issuesOf tracker) repo n =
     (case tracker n of
        Some (state, labels, parent) \<Rightarrow>
          Inr \<lparr>IssueNumber = n, Title = [], State = state, IssueLabels = labels\<rparr>
      | None \<Rightarrow> Inl (Wrap ''failed to get issue'' (Transport ''not found'')))"
  by (simp add: GetIssue_def issuesOf_def wrap_def split: option.splits)

lemma GetParentIssueNumber_issuesOf [simp]:
  "GetParentIssueNumber (issuesOf tracker) ''NethServer/dev'' n =
     (case tracker n of
        Some (state, labels, parent) \<Rightarrow> Inr (case parent of Some p \<Rightarrow> p | None \<Rightarrow> 0)
      | None \<Rightarrow> Inl (Wrap ''failed to query parent issue'' (Transport ''not found'')))"
  by (simp add: GetParentIssueNumber_def issuesOf_def split: option.splits)

subsection \<open>Termination\<close>

text \<open>
  A call does not return when the ascent from the issue stays within a set of issues
  that are not in the summary, can be fetched, and have a parent in the set: a cycle of
  the parent relation is such a set. The summary is the same in every call of the
  ascent, because an entry is stored only after the call for its parent has returned.
\<close>

lemma ProcessIssue_Some_leaves:
  "ProcessIssue client cs n = Some r \<Longrightarrow>
   (\<forall>n \<in> S. Issues cs n = None \<and> (\<exists>issue. GetIssue client (IssuesRepo cs) n = Inr issue) \<and>
      (\<exists>p \<in> S. GetParentIssueNumber client (IssuesRepo cs) n = Inr p \<and> 0 < p)) \<Longrightarrow>
   n \<notin> S"
proof (induction rule: ProcessIssue.raw_induct [rotated, consumes 1, case_names step])
  case (step f client cs n r)
  show ?case
  proof
    assume "n \<in> S"
    with step(3) obtain issue p where
      *: "Issues cs n = None" "GetIssue client (IssuesRepo cs) n = Inr issue"
         "GetParentIssueNumber client (IssuesRepo cs) n = Inr p" "0 < p" "p \<in> S"
      by blast
    with step(3) have "Issues cs p = None" by blast
    with step(2) * have "\<exists>y. f client cs p = Some y"
      by (auto simp: Let_def Option.bind_eq_Some_conv)
    then show False using step(1) [OF _ step(3)] \<open>p \<in> S\<close> by blast
  qed
qed

lemma ProcessIssue_diverges:
  assumes "\<forall>n \<in> S. Issues cs n = None \<and> (\<exists>issue. GetIssue client (IssuesRepo cs) n = Inr issue) \<and>
      (\<exists>p \<in> S. GetParentIssueNumber client (IssuesRepo cs) n = Inr p \<and> 0 < p)"
    and "n \<in> S"
  shows "ProcessIssue client cs n = None"
  using assms ProcessIssue_Some_leaves [of client cs n _ S]
  by (cases "ProcessIssue client cs n") auto

text \<open>
  C2, as the claim states it, fails: with issue 1 under issue 2 and issue 2 under issue
  1, the call for issue 1 on the empty summary never returns.
\<close>

theorem ProcessIssue_cycle_counterexample:
  "ProcessIssue (issuesOf cyclic) (NewCheckSummary ''NethServer/dev'') 1 = None"
  by (rule ProcessIssue_diverges [where S = "{1, 2}"]) (auto simp: NewCheckSummary_def cyclic_def)

text \<open>
  C2, amended. \<^verbatim>\<open>ProcessIssue\<close> returns whenever the parent relation that the platform
  reports is well-founded: no cycle, and no ascent without end.
\<close>

theorem ProcessIssue_returns:
  assumes "wf {(p, n). GetParentIssueNumber client (IssuesRepo cs) n = Inr p \<and> 0 < p}"
  shows "\<exists>r. ProcessIssue client cs n = Some r"
  using assms
proof (induction n rule: wf_induct_rule)
  case (less n)
  show ?case
  proof (cases "Issues cs n")
    case (Some info)
    then show ?thesis by (simp add: ProcessIssue_known)
  next
    case None
    show ?thesis
    proof (cases "GetIssue client (IssuesRepo cs) n")
      case (Inl err)
      with None show ?thesis by (simp add: ProcessIssue_fetch_failed)
    next
      case (Inr issue)
      show ?thesis
      proof (cases "case GetParentIssueNumber client (IssuesRepo cs) n of
                      Inl e \<Rightarrow> True | Inr p \<Rightarrow> p \<le> 0")
        case True
        with None Inr show ?thesis by (simp add: ProcessIssue_no_parent)
      next
        case False
        then obtain p where p: "GetParentIssueNumber client (IssuesRepo cs) n = Inr p" "0 < p"
          by (auto split: sum.splits)
        show ?thesis
        proof (cases "Issues cs p")
          case (Some parent)
          with None Inr p show ?thesis by (simp add: ProcessIssue_parent_known)
        next
          case None': None
          from less.IH [of p] p obtain r where "ProcessIssue client cs p = Some r" by auto
          then show ?thesis
            unfolding ProcessIssue_parent_new [OF None Inr p None']
            by (rule bind_result_Some)
        qed
      qed
    qed
  qed
qed

lemma chain_wf:
  "wf {(p, n). GetParentIssueNumber (issuesOf chain)
                 (IssuesRepo (NewCheckSummary ''NethServer/dev'')) n = Inr p \<and> 0 < p}"
proof (rule wf_subset [OF wf_measure [of nat]])
  show "{(p, n). GetParentIssueNumber (issuesOf chain)
                   (IssuesRepo (NewCheckSummary ''NethServer/dev'')) n = Inr p \<and> 0 < p}
        \<subseteq> measure nat"
    by (auto simp: NewCheckSummary_def chain_def split: if_splits)
qed

theorem ProcessIssue_returns_witness:
  "wf {(p, n). GetParentIssueNumber (issuesOf chain)
                 (IssuesRepo (NewCheckSummary ''NethServer/dev'')) n = Inr p \<and> 0 < p} \<and>
   (\<exists>r. ProcessIssue (issuesOf chain) (NewCheckSummary ''NethServer/dev'') 3 = Some r)"
  using ProcessIssue_returns [OF chain_wf, of 3] chain_wf by simp

subsection \<open>The status of a fetched issue\<close>

lemma Status_newIssueInfo:
  "Status (newIssueInfo n issue) =
     (if State issue = ''CLOSED'' \<or> State issue = ''closed'' then EmojiClosedIssue else EmojiOpenIssue)"
  by (simp add: newIssueInfo_def split: prod.splits)

lemma Issues_storeIssue [simp]: "Issues (storeIssue cs n info) = (Issues cs)(n \<mapsto> info)"
  by (simp add: storeIssue_def)

lemma ProcessIssue_fetched:
  assumes new: "Issues cs n = None" and got: "GetIssue client (IssuesRepo cs) n = Inr issue"
    and res: "ProcessIssue client cs n = Some (Returned (err, cs'))"
  shows "\<exists>cs'' info. err = None \<and> cs' = storeIssue cs'' n info \<and>
           (info = newIssueInfo n issue \<or> (\<exists>p. info = newIssueInfo n issue\<lparr>ParentNumber := p\<rparr>))"
proof (cases "case GetParentIssueNumber client (IssuesRepo cs) n of Inl e \<Rightarrow> True | Inr p \<Rightarrow> p \<le> 0")
  case True
  from res show ?thesis
    unfolding ProcessIssue_no_parent [OF new got True] by auto
next
  case False
  then obtain p where p: "GetParentIssueNumber client (IssuesRepo cs) n = Inr p" "0 < p"
    by (auto split: sum.splits)
  show ?thesis
  proof (cases "Issues cs p")
    case (Some parent)
    from res show ?thesis
      unfolding ProcessIssue_parent_known [OF new got p Some]
      by (auto simp: obind_Returned)
  next
    case None
    from res obtain r where r: "ProcessIssue client cs p = Some r"
      unfolding ProcessIssue_parent_new [OF new got p None]
      by (auto simp: Option.bind_eq_Some_conv)
    from res show ?thesis
      unfolding ProcessIssue_parent_new [OF new got p None] r
      by (cases r; clarsimp simp: obind_Returned split: option.splits) blast+
  qed
qed

text \<open>
  C5, as the claim states it, fails: an issue whose state is spelled \<^verbatim>\<open>Closed\<close> is
  entered as open.
\<close>

theorem ProcessIssue_Closed_counterexample:
  "ProcessIssue (issuesOf mixedCase) (NewCheckSummary ''NethServer/dev'') 1 =
     Some (Returned (None, storeIssue (NewCheckSummary ''NethServer/dev'') 1
       \<lparr>Number = 1, Status = EmojiOpenIssue, Progress = EmojiInProgress, Labels = [],
        RefCount = 1, ParentNumber = 0, Children = []\<rparr>)) \<and>
   EmojiOpenIssue \<noteq> EmojiClosedIssue"
  by (subst ProcessIssue_no_parent
        [where issue = "\<lparr>IssueNumber = 1, Title = [], State = ''Closed'', IssueLabels = []\<rparr>"])
     (simp_all add: NewCheckSummary_def mixedCase_def newIssueInfo_def
        EmojiOpenIssue_def EmojiClosedIssue_def)

text \<open>
  C5, amended. When \<^verbatim>\<open>ProcessIssue\<close> fetches an issue and returns, the entry of the
  issue has the closed status if the state string is \<^verbatim>\<open>CLOSED\<close> or \<^verbatim>\<open>closed\<close>, letter
  for letter, and the open status for every other string.
\<close>

theorem ProcessIssue_status:
  assumes "Issues cs n = None" and "GetIssue client (IssuesRepo cs) n = Inr issue"
    and "ProcessIssue client cs n = Some (Returned (err, cs'))"
  shows "map_option Status (Issues cs' n) =
           Some (if State issue = ''CLOSED'' \<or> State issue = ''closed''
                 then EmojiClosedIssue else EmojiOpenIssue)"
  using ProcessIssue_fetched [OF assms] by (auto simp: Status_newIssueInfo)

lemma chain_1:
  "ProcessIssue (issuesOf chain) (NewCheckSummary ''NethServer/dev'') 1 =
     Some (Returned (None, storeIssue (NewCheckSummary ''NethServer/dev'') 1
       \<lparr>Number = 1, Status = EmojiClosedIssue, Progress = EmojiVerified, Labels = [],
        RefCount = 1, ParentNumber = 0, Children = []\<rparr>))"
  by (subst ProcessIssue_no_parent
        [where issue = "\<lparr>IssueNumber = 1, Title = [], State = ''closed'', IssueLabels = [''verified'']\<rparr>"])
     (simp_all add: NewCheckSummary_def chain_def newIssueInfo_def)

theorem ProcessIssue_status_witness:
  "Issues (NewCheckSummary ''NethServer/dev'') 1 = None \<and>
   GetIssue (issuesOf chain) (IssuesRepo (NewCheckSummary ''NethServer/dev'')) 1 =
     Inr \<lparr>IssueNumber = 1, Title = [], State = ''closed'', IssueLabels = [''verified'']\<rparr> \<and>
   ProcessIssue (issuesOf chain) (NewCheckSummary ''NethServer/dev'') 1 =
     Some (Returned (None, storeIssue (NewCheckSummary ''NethServer/dev'') 1
       \<lparr>Number = 1, Status = EmojiClosedIssue, Progress = EmojiVerified, Labels = [],
        RefCount = 1, ParentNumber = 0, Children = []\<rparr>)) \<and>
   map_option Status (Issues (storeIssue (NewCheckSummary ''NethServer/dev'') 1
       \<lparr>Number = 1, Status = EmojiClosedIssue, Progress = EmojiVerified, Labels = [],
        RefCount = 1, ParentNumber = 0, Children = []\<rparr>) 1) = Some EmojiClosedIssue"
  using ProcessIssue_status [OF _ _ chain_1,
      of "\<lparr>IssueNumber = 1, Title = [], State = ''closed'', IssueLabels = [''verified'']\<rparr>"]
    chain_1
  by (simp add: NewCheckSummary_def chain_def)

section \<open>ScanForPRs\<close>

lemma collectPRs_accumulated:
  "collectPRs client repo commits prMap = prMap \<union> accumulated_PRs client repo commits"
  by (induction commits arbitrary: prMap) (auto simp: accumulated_PRs_def split: sum.splits)

text \<open>
  C8. Once the range is fetched, \<^verbatim>\<open>ScanForPRs\<close> fails with the empty-range error exactly
  when the range has no commit, and with the no-PRs error exactly when the range has
  commits and the lookups that succeed give no pull request. In every other case it
  returns the numbers of the lookups that succeed: a lookup that fails only leaves its
  commit out.
\<close>

theorem ScanForPRs_errors:
  assumes "CompareCommits client repo startRef endRef = Inr commits"
  shows "(ScanForPRs client rangeOrder repo startRef endRef =
            Inl (Errorf ''no commits found in the specified range'') \<longleftrightarrow> commits = []) \<and>
         (ScanForPRs client rangeOrder repo startRef endRef =
            Inl (Errorf ''no pull requests found for the commits in the specified range'') \<longleftrightarrow>
            commits \<noteq> [] \<and> accumulated_PRs client repo commits = {}) \<and>
         (commits \<noteq> [] \<and> accumulated_PRs client repo commits \<noteq> {} \<longrightarrow>
            ScanForPRs client rangeOrder repo startRef endRef =
              Inr (rangeOrder (accumulated_PRs client repo commits)))"
  using assms by (auto simp: ScanForPRs_def collectPRs_accumulated Let_def)

section \<open>FindPreviousRelease\<close>

lemma findCurrentIndex_first:
  "\<forall>x \<in> set newer. TagName x \<noteq> tag \<Longrightarrow> TagName r = tag \<Longrightarrow>
   findCurrentIndex (newer @ r # older) tag i = int (i + length newer)"
  by (induction newer arbitrary: i) auto

lemma findStableFrom_skip:
  "\<forall>x \<in> set pres. IsPrerelease x \<Longrightarrow>
   findStableFrom (xs @ pres @ ys) (length xs) = findStableFrom (xs @ pres @ ys) (length xs + length pres)"
proof (induction pres arbitrary: xs)
  case Nil
  then show ?case by simp
next
  case (Cons p pres)
  have "findStableFrom (xs @ (p # pres) @ ys) (length xs) =
        findStableFrom (xs @ (p # pres) @ ys) (length xs + 1)"
    using Cons.prems by (subst findStableFrom.simps) (simp add: nth_append)
  also have "\<dots> = findStableFrom ((xs @ [p]) @ pres @ ys) (length (xs @ [p]))" by simp
  also have "\<dots> = findStableFrom ((xs @ [p]) @ pres @ ys) (length (xs @ [p]) + length pres)"
    using Cons.prems by (intro Cons.IH) simp
  finally show ?case by simp
qed

lemma findStableFrom_stable:
  "\<not> IsPrerelease s \<Longrightarrow> findStableFrom (xs @ s # ys) (length xs) = Inr (TagName s)"
  by (subst findStableFrom.simps) (simp add: nth_append)

lemma findStableFrom_end:
  "findStableFrom xs (length xs) = Inl (Errorf ''no previous stable release found'')"
  by (subst findStableFrom.simps) simp

text \<open>
  C9. The list of releases is ordered by recency, so the releases after the current tag
  are the older ones, the nearest first. For a pre-release the result is the release
  right after it, of either kind. For a stable release it is the first stable release
  after it, whatever the number of pre-releases in between. Where there is no such
  release the result is an error.
\<close>

theorem FindPreviousRelease_previous:
  assumes "ViewRelease client repo tag = Inr current"
    and "ListReleases client repo 1000 False = Inr (newer @ r # older)"
    and "TagName r = tag" and "\<forall>x \<in> set newer. TagName x \<noteq> tag"
  shows "(IsPrerelease current \<longrightarrow>
            FindPreviousRelease client repo tag =
              (case older of [] \<Rightarrow> Inl (Errorf ''no previous release found'')
                           | p # _ \<Rightarrow> Inr (TagName p))) \<and>
         (\<not> IsPrerelease current \<longrightarrow>
            (\<forall>pres s rest. older = pres @ s # rest \<and> (\<forall>x \<in> set pres. IsPrerelease x) \<and>
                \<not> IsPrerelease s \<longrightarrow>
                FindPreviousRelease client repo tag = Inr (TagName s)) \<and>
            ((\<forall>x \<in> set older. IsPrerelease x) \<longrightarrow>
                FindPreviousRelease client repo tag =
                  Inl (Errorf (if older = [] then ''no previous release found''
                               else ''no previous stable release found''))))"
proof -
  have idx: "findCurrentIndex (newer @ r # older) tag 0 = int (length newer)"
    using findCurrentIndex_first [OF assms(4,3), of older 0] by simp
  have pre: "IsPrerelease current \<Longrightarrow> ?thesis"
    using assms(1,2) idx
    by (cases older) (auto simp: FindPreviousRelease_def Let_def nth_append nat_add_distrib)
  have stable: "FindPreviousRelease client repo tag = Inr (TagName s)"
    if "\<not> IsPrerelease current" "older = pres @ s # rest" "\<forall>x \<in> set pres. IsPrerelease x"
       "\<not> IsPrerelease s" for pres s rest
  proof -
    have "findStableFrom ((newer @ [r]) @ pres @ s # rest) (length (newer @ [r])) =
          findStableFrom ((newer @ [r]) @ pres @ s # rest) (length (newer @ [r]) + length pres)"
      using that(3) by (rule findStableFrom_skip)
    also have "\<dots> = findStableFrom ((newer @ [r] @ pres) @ s # rest) (length (newer @ [r] @ pres))"
      by simp
    also have "\<dots> = Inr (TagName s)" using that(4) by (rule findStableFrom_stable)
    finally show ?thesis
      using assms(1,2) idx that(1,2)
      by (simp add: FindPreviousRelease_def Let_def nat_add_distrib)
  qed
  have none: "FindPreviousRelease client repo tag =
                  Inl (Errorf (if older = [] then ''no previous release found''
                               else ''no previous stable release found''))"
    if "\<not> IsPrerelease current" "\<forall>x \<in> set older. IsPrerelease x"
  proof (cases "older = []")
    case True
    then show ?thesis using assms(1,2) idx by (simp add: FindPreviousRelease_def Let_def)
  next
    case False
    have "findStableFrom ((newer @ [r]) @ older @ []) (length (newer @ [r])) =
          findStableFrom ((newer @ [r]) @ older @ []) (length (newer @ [r]) + length older)"
      using that(2) by (rule findStableFrom_skip)
    also have "\<dots> = Inl (Errorf ''no previous stable release found'')"
      using findStableFrom_end [of "newer @ [r] @ older"] by simp
    finally show ?thesis
      using assms(1,2) idx that(1) False
      by (simp add: FindPreviousRelease_def Let_def nat_add_distrib)
  qed
  show ?thesis using pre stable none by blast
qed

section \<open>The check command: commits in and outside pull requests\<close>

lemma ProcessIssue_frame_aux:
  "ProcessIssue client cs n = Some r \<Longrightarrow>
   \<forall>err cs'. r = Returned (err, cs') \<longrightarrow>
     UnlinkedPRs cs' = UnlinkedPRs cs \<and> TranslationPRs cs' = TranslationPRs cs \<and>
     OrphanCommits cs' = OrphanCommits cs \<and> IssuesRepo cs' = IssuesRepo cs"
proof (induction rule: ProcessIssue.raw_induct [rotated, consumes 1, case_names step])
  case (step f client cs n r)
  show ?case
  proof (intro allI impI)
    fix err cs'
    assume r: "r = Returned (err, cs')"
    show "UnlinkedPRs cs' = UnlinkedPRs cs \<and> TranslationPRs cs' = TranslationPRs cs \<and>
          OrphanCommits cs' = OrphanCommits cs \<and> IssuesRepo cs' = IssuesRepo cs"
    proof (cases "Issues cs n")
      case (Some info)
      with step(2) r show ?thesis by (auto simp: storeIssue_def)
    next
      case None
      show ?thesis
      proof (cases "GetIssue client (IssuesRepo cs) n")
        case (Inl e)
        with None step(2) r show ?thesis by auto
      next
        case (Inr issue)
        show ?thesis
        proof (cases "case GetParentIssueNumber client (IssuesRepo cs) n of
                        Inl e \<Rightarrow> True | Inr p \<Rightarrow> p \<le> 0")
          case True
          with None Inr step(2) r show ?thesis
            by (auto simp: storeIssue_def Let_def split: sum.splits)
        next
          case False
          then obtain p where p: "GetParentIssueNumber client (IssuesRepo cs) n = Inr p" "0 < p"
            by (auto split: sum.splits)
          show ?thesis
          proof (cases "Issues cs p")
            case (Some parent)
            with None Inr p step(2) r show ?thesis
              by (auto simp: Let_def obind_Returned appendChild_def storeIssue_def)
          next
            case None': None
            with None Inr p step(2) obtain r' where r': "f client cs p = Some r'"
              by (auto simp: Let_def Option.bind_eq_Some_conv)
            note IH = step(1) [OF r']
            from None None' Inr p step(2) r r' IH show ?thesis
              by (cases r') (auto simp: Let_def obind_Returned appendChild_def storeIssue_def
                                  split: option.splits prod.splits)
          qed
        qed
      qed
    qed
  qed
qed

lemma ProcessIssue_frame:
  "ProcessIssue client cs n = Some (Returned (err, cs')) \<Longrightarrow>
     UnlinkedPRs cs' = UnlinkedPRs cs \<and> TranslationPRs cs' = TranslationPRs cs \<and>
     OrphanCommits cs' = OrphanCommits cs \<and> IssuesRepo cs' = IssuesRepo cs"
  using ProcessIssue_frame_aux by blast

lemma cbind_Returned:
  "cbind m f = Some (Returned y) \<longleftrightarrow> (\<exists>x. m = Some (Returned x) \<and> f x = Some (Returned y))"
  by (cases m) (auto simp: cbind_def split: outcome.splits)

lemma processLinkedIssues_orphans:
  "processLinkedIssues client ns cs = Some (Returned cs') \<Longrightarrow> OrphanCommits cs' = OrphanCommits cs"
proof (induction ns arbitrary: cs)
  case Nil
  then show ?case by simp
next
  case (Cons n ns)
  then show ?case
    by (auto simp: cbind_Returned dest!: ProcessIssue_frame)
qed

lemma processPRs_orphans:
  "processPRs client repo irepo prs cs = Some (Returned cs') \<Longrightarrow> OrphanCommits cs' = OrphanCommits cs"
proof (induction prs arbitrary: cs)
  case Nil
  then show ?case by simp
next
  case (Cons n prs)
  show ?case
  proof (cases "GetPullRequest client repo n")
    case (Inl e)
    with Cons show ?thesis by simp
  next
    case (Inr pr)
    with Cons.prems obtain linked where
      l: "GetLinkedIssues (Body pr) irepo = Returned linked"
      by (auto simp: cbind_Returned)
    show ?thesis
      using Cons.prems Inr l
      by (auto simp: cbind_Returned split: if_splits
               dest!: processLinkedIssues_orphans Cons.IH)
  qed
qed

lemma orphanCommits_list:
  "OrphanCommits (orphanCommits repo inPRs commits summary) =
     OrphanCommits summary @ map (commitURL repo) (filter (\<lambda>sha. sha \<notin> inPRs) commits)"
  by (induction commits arbitrary: summary) auto

lemma markCommits_set:
  "markCommits client repo commits acc =
     acc \<union> {sha \<in> set commits. \<exists>prs. GetPullRequestsForCommit client repo sha = Inr prs \<and> prs \<noteq> []}"
  by (induction commits arbitrary: acc) (auto split: sum.splits)

lemma commitURL_inj [simp]: "commitURL repo a = commitURL repo b \<longleftrightarrow> a = b"
  by (simp add: commitURL_def)

lemma checkRange_Displayed:
  assumes "checkRange client ord repo irepo tag commits = Some (Returned (Displayed summary commits' inPRs))"
  shows "commits' = commits \<and>
         inPRs = {sha \<in> set commits. \<exists>prs. GetPullRequestsForCommit client repo sha = Inr prs \<and> prs \<noteq> []} \<and>
         OrphanCommits summary = map (commitURL repo) (filter (\<lambda>sha. sha \<notin> inPRs) commits)"
  using assms
  by (auto simp: checkRange_def Let_def cbind_Returned orphanCommits_list markCommits_set NewCheckSummary_def
           split: sum.splits dest!: processPRs_orphans)

text \<open>
  The summary is displayed only after the scan for pull requests has found one: some
  commit of the range is in a pull request.
\<close>

lemma checkRange_some_PR:
  assumes "checkRange client ord repo irepo tag commits = Some (Returned (Displayed summary commits' inPRs))"
    and "CompareCommits client repo tag ''main'' = Inr commits"
  shows "\<exists>sha \<in> set commits. \<exists>prs. GetPullRequestsForCommit client repo sha = Inr prs \<and> prs \<noteq> []"
proof -
  from assms(1) obtain prNumbers where "ScanForPRs client ord repo tag ''main'' = Inr prNumbers"
    by (auto simp: checkRange_def split: sum.splits)
  then have "collectPRs client repo commits {} \<noteq> {}"
    using assms(2) by (auto simp: ScanForPRs_def Let_def split: if_splits)
  then obtain n where "n \<in> accumulated_PRs client repo commits"
    unfolding collectPRs_accumulated by auto
  then obtain sha where sha: "sha \<in> set commits"
    and n: "n \<in> (case GetPullRequestsForCommit client repo sha of Inr prs \<Rightarrow> set prs | Inl err \<Rightarrow> {})"
    unfolding accumulated_PRs_def by blast
  from n obtain prs where "GetPullRequestsForCommit client repo sha = Inr prs" "n \<in> set prs"
    by (cases "GetPullRequestsForCommit client repo sha") auto
  then have "GetPullRequestsForCommit client repo sha = Inr prs \<and> prs \<noteq> []" by auto
  with sha show ?thesis by blast
qed

lemma runCheck_Displayed:
  assumes "runCheck (Inr client) ord rflag irepo = Some (Returned (Displayed summary commits inPRs))"
  shows "\<exists>repo latest. GetOrValidateRepo client rflag = Returned (Inr repo) \<and>
           GetLatestRelease client repo True = Inr latest \<and>
           CompareCommits client repo (TagName latest) ''main'' = Inr commits \<and>
           checkRange client ord repo irepo (TagName latest) commits =
             Some (Returned (Displayed summary commits inPRs))"
proof -
  from assms obtain r where r: "GetOrValidateRepo client rflag = Returned r"
    and 1: "(case r of Inl err \<Rightarrow> Some (Returned (CheckFailed err))
             | Inr repo \<Rightarrow> (case GetLatestRelease client repo True of
                   Inl err \<Rightarrow> Some (Returned (CheckFailed (Errorf ''no releases found'')))
                 | Inr latestRelease \<Rightarrow> checkSince client ord repo irepo latestRelease)) =
            Some (Returned (Displayed summary commits inPRs))"
    by (auto simp: runCheck_def cbind_Returned)
  from 1 obtain repo where repo: "r = Inr repo" by (cases r) auto
  from 1 repo obtain latest where latest: "GetLatestRelease client repo True = Inr latest"
    and 2: "checkSince client ord repo irepo latest = Some (Returned (Displayed summary commits inPRs))"
    by (cases "GetLatestRelease client repo True") auto
  from 2 obtain cs where cs: "CompareCommits client repo (TagName latest) ''main'' = Inr cs"
    and 3: "checkRange client ord repo irepo (TagName latest) cs =
              Some (Returned (Displayed summary commits inPRs))"
    by (auto simp: checkSince_def split: sum.splits if_splits)
  from checkRange_Displayed [OF 3] have "commits = cs" by simp
  with r repo latest cs 3 show ?thesis by auto
qed

text \<open>
  C4. When the check command comes to display its summary, the commits marked as being
  in a pull request and the commits listed as orphans divide the commits of the range:
  every commit of the range is in exactly one of the two, and both hold commits of the
  range only. A commit whose lookup fails is not marked, and is listed as an orphan.
  The command comes to that point only for a range in which some commit is in a pull
  request: the marked set is never empty.
\<close>

theorem runCheck_partition:
  assumes "runCheck (Inr client) ord rflag irepo = Some (Returned (Displayed summary commits inPRs))"
  shows "\<exists>repo latest. GetOrValidateRepo client rflag = Returned (Inr repo) \<and>
           GetLatestRelease client repo True = Inr latest \<and>
           CompareCommits client repo (TagName latest) ''main'' = Inr commits \<and>
           inPRs \<subseteq> set commits \<and> inPRs \<noteq> {} \<and>
           set (OrphanCommits summary) \<subseteq> commitURL repo ` set commits \<and>
           (\<forall>sha \<in> set commits. (sha \<in> inPRs) \<noteq> (commitURL repo sha \<in> set (OrphanCommits summary))) \<and>
           (\<forall>sha \<in> set commits. \<forall>err. GetPullRequestsForCommit client repo sha = Inl err \<longrightarrow>
              sha \<notin> inPRs \<and> commitURL repo sha \<in> set (OrphanCommits summary))"
proof -
  from runCheck_Displayed [OF assms] obtain repo latest where
    *: "GetOrValidateRepo client rflag = Returned (Inr repo)"
       "GetLatestRelease client repo True = Inr latest"
       "CompareCommits client repo (TagName latest) ''main'' = Inr commits"
       "checkRange client ord repo irepo (TagName latest) commits =
             Some (Returned (Displayed summary commits inPRs))"
    by blast
  from checkRange_Displayed [OF *(4)] have
    m: "inPRs = {sha \<in> set commits. \<exists>prs. GetPullRequestsForCommit client repo sha = Inr prs \<and> prs \<noteq> []}"
    and o: "OrphanCommits summary = map (commitURL repo) (filter (\<lambda>sha. sha \<notin> inPRs) commits)"
    by simp_all
  have "inPRs \<subseteq> set commits" using m by auto
  moreover have "inPRs \<noteq> {}" using checkRange_some_PR [OF *(4) *(3)] m by blast
  moreover have "set (OrphanCommits summary) \<subseteq> commitURL repo ` set commits" using o by auto
  moreover have "\<forall>sha \<in> set commits. (sha \<in> inPRs) \<noteq> (commitURL repo sha \<in> set (OrphanCommits summary))"
    unfolding o by (auto simp: image_iff)
  moreover have "\<forall>sha \<in> set commits. \<forall>err. GetPullRequestsForCommit client repo sha = Inl err \<longrightarrow>
              sha \<notin> inPRs \<and> commitURL repo sha \<in> set (OrphanCommits summary)"
    unfolding o using m by (auto simp: image_iff)
  ultimately show ?thesis using * by blast
qed

section \<open>The create command: the prerelease flag\<close>

text \<open>
  The error that the command returns when \<^verbatim>\<open>gh\<close> answers the command \<open>cmd\<close> with an
  error: \<^verbatim>\<open>CreateRelease\<close> wraps it, and the command wraps it once more.
\<close>

lemma CreateRelease_NilBuffer:
  "CreateRelease client repo tag title draft prerelease target NilBuffer =
     Panicked ''nil pointer dereference''"
  by (simp add: CreateRelease_def)

text \<open>
  Without \<^verbatim>\<open>--with-linked-issues\<close> no notes are generated, \<^verbatim>\<open>notesReader\<close> stays a nil
  \<^verbatim>\<open>*bytes.Buffer\<close>, and the call of \<^verbatim>\<open>CreateRelease\<close> panics before \<^verbatim>\<open>gh\<close> is run.
\<close>

lemma createNamed_without_notes:
  "\<not> withLinkedIssuesFlag flags \<Longrightarrow>
   createNamed client ord flags repo commitInfo isPre name = Panicked ''nil pointer dereference''"
  by (simp add: createNamed_def CreateRelease_NilBuffer Let_def)






section \<open>The demo repository\<close>

text \<open>The facts that evaluate a pattern and a match on given strings.\<close>

lemmas parse_simps = MustCompile_def bs_def normal_step_def push_item_def pfinish_def rep_of_def alnum_def byte_def class_step_def class_plain_def
lemmas match_simps = MatchString_def FindStringSubmatch_def FindAllStringSubmatch_def submatches_def capture_def in_ranges_def runeTail_def cont_def

lemma demo_fields:
  "rest_repo demo = (\<lambda>repo. if repo = ''NethServer/ns8-demo''
                       then Inr \<lparr>Owner = ''NethServer'', Name = ''ns8-demo'', DefaultBranchRef = ''main''\<rparr>
                       else Inl (Transport ''not found''))"
  "rest_commits demo = (\<lambda>repo. Inr [''c3'', ''c2'', ''c1'', ''c0''])"
  "rest_ref demo = (\<lambda>repo ref. if ref = ''tags/1.0.0'' then Inr ''c0''
                       else if ref = ''heads/main'' then Inr ''c3''
                       else Inl (Transport ''not found''))"
  "rest_compare demo = (\<lambda>repo base head. if base = ''1.0.0'' \<and> head = ''main''
                       then Inr [''c1'', ''c2'', ''c3''] else Inr [])"
  "gh_release_list demo = (\<lambda>repo limit excl.
                       Inr (take (nat limit) (filter (\<lambda>r. \<not> excl \<or> \<not> IsPrerelease r) demoReleases)))"
  "gh_release_view demo = (\<lambda>repo tag. case filter (\<lambda>r. TagName r = tag) demoReleases of
                         r # _ \<Rightarrow> Inr r | [] \<Rightarrow> Inl (Transport ''not found''))"
  "gh_exec demo = (\<lambda>args. None)"
  "rest_commit_pulls demo = (\<lambda>repo sha. if sha = ''c1'' then Inr [7]
                       else if sha = ''c2'' then Inl (Transport ''timeout'')
                       else Inr [])"
  "rest_pull demo = (\<lambda>repo n. if n = 7
                       then Inr \<lparr>PRNumber = 7, Body = ''Fixes NethServer/dev#3'', PRLabels = []\<rparr>
                       else Inl (Transport ''not found''))"
  "rest_issue demo = rest_issue (issuesOf chain)"
  "graphql_parent demo = graphql_parent (issuesOf chain)"
  by (simp_all add: demo_def)

lemma demo_repo: "GetOrValidateRepo demo ''NethServer/ns8-demo'' = Returned (Inr ''NethServer/ns8-demo'')"
  by (simp add: GetOrValidateRepo_def ValidateRepository_def ns8ModulePattern_def parse_simps match_simps
       GetRepository_def demo_fields wrap_def)

lemma demo_compare:
  "CompareCommits demo ''NethServer/ns8-demo'' ''1.0.0'' ''main'' = Inr [''c1'', ''c2'', ''c3'']"
  by (simp add: CompareCommits_def demo_fields wrap_def)

lemma demo_pulls:
  "GetPullRequestsForCommit demo repo sha =
     (if sha = ''c1'' then Inr [7]
      else if sha = ''c2'' then Inl (Wrap ''failed to get PRs for commit'' (Transport ''timeout''))
      else Inr [])"
  by (simp add: GetPullRequestsForCommit_def demo_fields wrap_def)

lemma demo_accumulated:
  "accumulated_PRs demo ''NethServer/ns8-demo'' [''c1'', ''c2'', ''c3''] = {7}"
  by (simp add: accumulated_PRs_def demo_pulls)

theorem ScanForPRs_errors_witness:
  "CompareCommits demo ''NethServer/ns8-demo'' ''1.0.0'' ''main'' = Inr [''c1'', ''c2'', ''c3''] \<and>
   GetPullRequestsForCommit demo ''NethServer/ns8-demo'' ''c2'' =
     Inl (Wrap ''failed to get PRs for commit'' (Transport ''timeout'')) \<and>
   ScanForPRs demo sorted_list_of_set ''NethServer/ns8-demo'' ''1.0.0'' ''main'' = Inr [7]"
  using ScanForPRs_errors [OF demo_compare, of sorted_list_of_set] demo_compare
  by (simp add: demo_accumulated demo_pulls)

lemma demo_view:
  "ViewRelease demo ''NethServer/ns8-demo'' ''1.0.0'' = Inr (release ''1.0.0'' False ''2024-02-01'')"
  by (simp add: ViewRelease_def demo_fields wrap_def demoReleases_def release_def)

lemma demo_list:
  "ListReleases demo ''NethServer/ns8-demo'' 1000 False = Inr demoReleases"
  by (simp add: ListReleases_def demo_fields wrap_def demoReleases_def)

theorem FindPreviousRelease_previous_witness:
  "ViewRelease demo ''NethServer/ns8-demo'' ''1.0.0'' = Inr (release ''1.0.0'' False ''2024-02-01'') \<and>
   ListReleases demo ''NethServer/ns8-demo'' 1000 False = Inr demoReleases \<and>
   FindPreviousRelease demo ''NethServer/ns8-demo'' ''1.0.0'' = Inr ''0.9.0''"
proof -
  have list: "ListReleases demo ''NethServer/ns8-demo'' 1000 False =
      Inr ([release ''1.0.1-testing.1'' True ''2024-03-01''] @ release ''1.0.0'' False ''2024-02-01'' #
           [release ''0.9.1-testing.1'' True ''2024-01-15'', release ''0.9.0'' False ''2024-01-01''])"
    using demo_list by (simp add: demoReleases_def)
  have tag: "TagName (release ''1.0.0'' False ''2024-02-01'') = ''1.0.0''"
    and newer: "\<forall>x \<in> set [release ''1.0.1-testing.1'' True ''2024-03-01'']. TagName x \<noteq> ''1.0.0''"
    by (simp_all add: release_def)
  have stable: "\<not> IsPrerelease (release ''1.0.0'' False ''2024-02-01'')"
    by (simp add: release_def)
  have older: "[release ''0.9.1-testing.1'' True ''2024-01-15'', release ''0.9.0'' False ''2024-01-01''] =
        [release ''0.9.1-testing.1'' True ''2024-01-15''] @ release ''0.9.0'' False ''2024-01-01'' # [] \<and>
        (\<forall>x \<in> set [release ''0.9.1-testing.1'' True ''2024-01-15'']. IsPrerelease x) \<and>
        \<not> IsPrerelease (release ''0.9.0'' False ''2024-01-01'')"
    by (simp add: release_def)
  from FindPreviousRelease_previous [OF demo_view list tag newer, THEN conjunct2, rule_format,
      OF stable, THEN conjunct1, rule_format, OF older]
  have "FindPreviousRelease demo ''NethServer/ns8-demo'' ''1.0.0'' =
          Inr (TagName (release ''0.9.0'' False ''2024-01-01''))" .
  then show ?thesis using demo_view demo_list by (simp add: release_def)
qed


lemma GetIssue_demo [simp]: "GetIssue demo = GetIssue (issuesOf chain)"
  by (simp add: GetIssue_def demo_fields fun_eq_iff)

lemma GetParent_demo [simp]: "GetParentIssueNumber demo = GetParentIssueNumber (issuesOf chain)"
  by (simp add: GetParentIssueNumber_def demo_fields fun_eq_iff split: list.splits)

lemma NewCheckSummary_simps [simp]:
  "Issues (NewCheckSummary r) = Map.empty" "IssuesRepo (NewCheckSummary r) = r"
  by (simp_all add: NewCheckSummary_def)

lemma demo_1:
  "ProcessIssue demo (NewCheckSummary ''NethServer/dev'') 1 =
     Some (Returned (None, storeIssue (NewCheckSummary ''NethServer/dev'') 1
       \<lparr>Number = 1, Status = EmojiClosedIssue, Progress = EmojiVerified, Labels = [],
        RefCount = 1, ParentNumber = 0, Children = []\<rparr>))"
  by (subst ProcessIssue_no_parent
        [where issue = "\<lparr>IssueNumber = 1, Title = [], State = ''closed'', IssueLabels = [''verified'']\<rparr>"])
     (simp_all add: chain_def newIssueInfo_def)

lemma demo_2:
  "ProcessIssue demo (NewCheckSummary ''NethServer/dev'') 2 =
     Some (Returned (None, NewCheckSummary ''NethServer/dev''
       \<lparr>Issues :=
          [1 \<mapsto> \<lparr>Number = 1, Status = EmojiClosedIssue, Progress = EmojiVerified,
                 Labels = [], RefCount = 1, ParentNumber = 0, Children = [2]\<rparr>,
           2 \<mapsto> \<lparr>Number = 2, Status = EmojiClosedIssue, Progress = EmojiTesting,
                 Labels = ''bug'', RefCount = 1, ParentNumber = 1, Children = []\<rparr>]\<rparr>))"
  by (subst ProcessIssue_parent_new
        [where issue = "\<lparr>IssueNumber = 2, Title = [], State = ''CLOSED'',
                        IssueLabels = [''testing'', ''bug'']\<rparr>" and p = 1])
     (simp_all add: chain_def demo_1 appendChild_def newIssueInfo_def storeIssue_def)

lemma demo_3:
  "ProcessIssue demo (NewCheckSummary ''NethServer/dev'') 3 =
     Some (Returned (None, NewCheckSummary ''NethServer/dev''
       \<lparr>Issues :=
          [1 \<mapsto> \<lparr>Number = 1, Status = EmojiClosedIssue, Progress = EmojiVerified,
                 Labels = [], RefCount = 1, ParentNumber = 0, Children = [2]\<rparr>,
           2 \<mapsto> \<lparr>Number = 2, Status = EmojiClosedIssue, Progress = EmojiTesting,
                 Labels = ''bug'', RefCount = 1, ParentNumber = 1, Children = [3]\<rparr>,
           3 \<mapsto> \<lparr>Number = 3, Status = EmojiOpenIssue, Progress = EmojiInProgress,
                 Labels = [], RefCount = 1, ParentNumber = 2, Children = []\<rparr>]\<rparr>))"
  by (subst ProcessIssue_parent_new
        [where issue = "\<lparr>IssueNumber = 3, Title = [], State = ''open'', IssueLabels = []\<rparr>"
           and p = 2])
     (simp_all add: chain_def demo_2 appendChild_def newIssueInfo_def storeIssue_def)

lemma demo_linked: "GetLinkedIssues ''Fixes NethServer/dev#3'' ''NethServer/dev'' = Returned [3]"
  by (simp add: GetLinkedIssues_def Split_def parse_simps match_simps Sscanf_d_def is_digit_def
        decimal_def digit_val_def)

lemma demo_check:
  "runCheck (Inr demo) sorted_list_of_set ''NethServer/ns8-demo'' ''NethServer/dev'' =
     Some (Returned (Displayed demoSummary [''c1'', ''c2'', ''c3''] {''c1''}))"
  by (simp add: runCheck_def checkSince_def checkRange_def cbind_def demo_repo demo_compare
      GetLatestRelease_def ListReleases_def GetReleaseCommitSHA_def GetMainBranchSHA_def GetCommitSHA_def
      ScanForPRs_def demo_pulls GetPullRequest_def demo_linked demo_3 commitURL_def
      demo_fields wrap_def demoReleases_def release_def)
     (simp add: demoSummary_def NewCheckSummary_def)

theorem runCheck_partition_witness:
  "runCheck (Inr demo) sorted_list_of_set ''NethServer/ns8-demo'' ''NethServer/dev'' =
     Some (Returned (Displayed demoSummary [''c1'', ''c2'', ''c3''] {''c1''})) \<and>
   OrphanCommits demoSummary = map (commitURL ''NethServer/ns8-demo'') [''c2'', ''c3''] \<and>
   GetPullRequestsForCommit demo ''NethServer/ns8-demo'' ''c2'' =
     Inl (Wrap ''failed to get PRs for commit'' (Transport ''timeout''))"
  using runCheck_partition [OF demo_check] demo_check
  by (simp add: demoSummary_def commitURL_def demo_pulls)

lemma demoNoPulls_fields:
  "rest_repo demoNoPulls = rest_repo demo"
  "rest_ref demoNoPulls = rest_ref demo"
  "rest_compare demoNoPulls = rest_compare demo"
  "gh_release_list demoNoPulls = gh_release_list demo"
  "rest_commit_pulls demoNoPulls = (\<lambda>repo sha. Inl (Transport ''timeout''))"
  by (simp_all add: demoNoPulls_def)

lemma demoNoPulls_repo:
  "GetOrValidateRepo demoNoPulls ''NethServer/ns8-demo'' = Returned (Inr ''NethServer/ns8-demo'')"
  by (simp add: GetOrValidateRepo_def ValidateRepository_def ns8ModulePattern_def parse_simps
      match_simps GetRepository_def demoNoPulls_fields demo_fields wrap_def)

text \<open>
  C4, a range that is scanned and not divided. When the lookup fails for every commit
  of the range, the scan finds no pull request, and the command returns its error
  before it marks a commit or lists an orphan: the three commits of the range are in
  neither set, and the commit whose lookup failed is not listed as an orphan.
\<close>

theorem runCheck_partition_counterexample:
  "CompareCommits demoNoPulls ''NethServer/ns8-demo'' ''1.0.0'' ''main'' = Inr [''c1'', ''c2'', ''c3''] \<and>
   GetPullRequestsForCommit demoNoPulls ''NethServer/ns8-demo'' ''c2'' =
     Inl (Wrap ''failed to get PRs for commit'' (Transport ''timeout'')) \<and>
   runCheck (Inr demoNoPulls) sorted_list_of_set ''NethServer/ns8-demo'' ''NethServer/dev'' =
     Some (Returned (CheckFailed (Wrap ''error processing PRs''
       (Errorf ''no pull requests found for the commits in the specified range''))))"
  by (simp add: runCheck_def checkSince_def checkRange_def cbind_def demoNoPulls_repo
      CompareCommits_def GetPullRequestsForCommit_def
      GetLatestRelease_def ListReleases_def GetReleaseCommitSHA_def GetMainBranchSHA_def GetCommitSHA_def
      ScanForPRs_def demoNoPulls_fields demo_fields wrap_def demoReleases_def release_def)










section \<open>GetLinkedIssues: the patterns built from the repository name\<close>

text \<open>
  A repository name that does not split into two parts at \<^verbatim>\<open>/\<close> gives no issue,
  whatever the body is.
\<close>

lemma GetLinkedIssues_not_two:
  "length (Split issuesRepo CHR ''/'') \<noteq> 2 \<Longrightarrow> GetLinkedIssues prBody issuesRepo = Returned []"
  by (auto simp: GetLinkedIssues_def split: list.splits)

text \<open>
  C6. GetLinkedIssues is not total. The owner and the repository are printed into the
  patterns as they are, and \<^verbatim>\<open>regexp.MustCompile\<close> panics on a pattern that is no
  regular expression: with the repository name \<^verbatim>\<open>(/dev\<close> the first pattern is
  \<^verbatim>\<open>(/issues/(\d+)\<close>, whose first parenthesis is never closed, and the call panics
  on the empty body, where the result should have been the empty list.
\<close>

theorem GetLinkedIssues_panics:
  "GetLinkedIssues [] ''(/dev'' = Panicked ''regexp: missing closing )''"
  by (simp add: GetLinkedIssues_def Split_def parse_simps)

section \<open>The next testing version\<close>

subsection \<open>Runs of digits\<close>






























lemma wrap64_top: "wrap64 (2 ^ 63) = - (2 ^ 63)"
  by (simp add: wrap64_def)


lemma decimal_snoc: "decimal (ds @ [c]) = decimal ds * 10 + digit_val c"
  by (simp add: decimal_def)

lemma digit_val_digit_char: "d < 10 \<Longrightarrow> digit_val (digit_char d) = d"
proof -
  assume "d < 10"
  then have "d \<in> {0, 1, 2, 3, 4, 5, 6, 7, 8, 9}" by auto
  then show ?thesis by (auto simp: digit_val_def digit_char_def)
qed

lemma is_digit_digit_char: "is_digit (digit_char d)"
proof -
  have "d mod 10 < 10" by simp
  then have "d mod 10 \<in> {0, 1, 2, 3, 4, 5, 6, 7, 8, 9}" by (simp; arith)
  then show ?thesis unfolding digit_char_def is_digit_def by auto
qed

lemma decimal_showNat: "decimal (showNat n) = n"
proof (induction n rule: showNat.induct)
  case (1 n)
  show ?case
  proof (cases "n < 10")
    case True
    then show ?thesis by (simp add: decimal_def digit_val_digit_char)
  next
    case False
    have "showNat n = showNat (n div 10) @ [digit_char (n mod 10)]"
      using False by (subst showNat.simps) simp
    then show ?thesis
      using 1 [OF False] by (simp add: decimal_snoc digit_val_digit_char del: showNat.simps)
  qed
qed

lemma showNat_digits: "list_all is_digit (showNat n) \<and> showNat n \<noteq> []"
proof (induction n rule: showNat.induct)
  case (1 n)
  show ?case
  proof (cases "n < 10")
    case True
    then show ?thesis by (simp add: is_digit_digit_char)
  next
    case False
    have "showNat n = showNat (n div 10) @ [digit_char (n mod 10)]"
      using False by (subst showNat.simps) simp
    then show ?thesis
      using 1 [OF False] by (simp add: is_digit_digit_char del: showNat.simps)
  qed
qed



subsection \<open>Literals\<close>




subsection \<open>The dot, repeated\<close>









lemma set_concat_map: "set (concat (map f xs)) = (\<Union>x \<in> set xs. set (f x))"
  by simp





















text \<open>
  With \<open>N = 2^63 - 1\<close> the sum \<^verbatim>\<open>num+1\<close> wraps around, and the number of the next
  version is negative.
\<close>

lemma incrementTestingNumber_wraps:
  "incrementTestingNumber ''1.0.0-testing.9223372036854775807'' =
     Returned (Inr ''1.0.0-testing.-9223372036854775808'')"
  by (simp add: incrementTestingNumber_def testingPattern_def parse_simps match_simps Atoi_def
      is_digit_def decimal_def digit_val_def wrap64_def showInt_def digit_char_def)

end
